theory Spec2Isabelle
  imports Complex_Main
begin

section \<open>Data model\<close>

text \<open>
  A snapshot is the \<^verbatim>\<open>GameState\<close> object that the publisher marshals and both
  front ends declare: an identifier, two team names, two scores, three odds and the
  update timestamp. The field \<^verbatim>\<open>id\<close> is written \<open>id'\<close>. Scores and the
  timestamp are integers, the odds are numbers compared by value (\<^verbatim>\<open>!==\<close> on
  numbers decoded from JSON, which never yields NaN).
\<close>

record GameState =
  id' :: string
  homeTeam :: string
  awayTeam :: string
  homeScore :: int
  awayScore :: int
  homeOdds :: real
  awayOdds :: real
  drawOdds :: real
  lastUpdated :: int

text \<open>
  A delta is the object the relay emits. Its keys \<^verbatim>\<open>id\<close> and
  \<^verbatim>\<open>lastUpdated\<close> are always there; every other key may be missing, which is
  \<open>None\<close>. The fields carry the prefix \<open>d_\<close>. The team names are keys of the
  object too: the relay returns the snapshot itself when it has no previous state.
\<close>

record GameDelta =
  d_id :: string
  d_lastUpdated :: int
  d_homeTeam :: "string option"
  d_awayTeam :: "string option"
  d_homeScore :: "int option"
  d_awayScore :: "int option"
  d_homeOdds :: "real option"
  d_awayOdds :: "real option"
  d_drawOdds :: "real option"

section \<open>Delta relay\<close>

subsection \<open>Delta computation\<close>

text \<open>The snapshot object itself, read as a delta: every key is present.\<close>

definition fullStateAsDelta :: "GameState \<Rightarrow> GameDelta" where
  "fullStateAsDelta fullState =
     \<lparr> d_id = id' fullState,
       d_lastUpdated = lastUpdated fullState,
       d_homeTeam = Some (homeTeam fullState),
       d_awayTeam = Some (awayTeam fullState),
       d_homeScore = Some (homeScore fullState),
       d_awayScore = Some (awayScore fullState),
       d_homeOdds = Some (homeOdds fullState),
       d_awayOdds = Some (awayOdds fullState),
       d_drawOdds = Some (drawOdds fullState) \<rparr>"

text \<open>
  \<^verbatim>\<open>calculateDelta(fullState, previousState)\<close>: without a previous state the
  full state is returned; otherwise the delta starts as \<^verbatim>\<open>{id, lastUpdated}\<close>
  and receives each of the five compared keys whose value differs.
\<close>

definition calculateDelta :: "GameState \<Rightarrow> GameState option \<Rightarrow> GameDelta" where
  "calculateDelta fullState previousState =
     (case previousState of
        None \<Rightarrow> fullStateAsDelta fullState
      | Some prev \<Rightarrow>
          \<lparr> d_id = id' fullState,
            d_lastUpdated = lastUpdated fullState,
            d_homeTeam = None,
            d_awayTeam = None,
            d_homeScore =
              (if homeScore fullState \<noteq> homeScore prev then Some (homeScore fullState) else None),
            d_awayScore =
              (if awayScore fullState \<noteq> awayScore prev then Some (awayScore fullState) else None),
            d_homeOdds =
              (if homeOdds fullState \<noteq> homeOdds prev then Some (homeOdds fullState) else None),
            d_awayOdds =
              (if awayOdds fullState \<noteq> awayOdds prev then Some (awayOdds fullState) else None),
            d_drawOdds =
              (if drawOdds fullState \<noteq> drawOdds prev then Some (drawOdds fullState) else None) \<rparr>)"

subsection \<open>The server's state\<close>

text \<open>
  What a client receives on its socket: the relay's \<^verbatim>\<open>delta\<close> event and the
  registry's \<^verbatim>\<open>error\<close> and \<^verbatim>\<open>subscribed\<close> events.
\<close>

datatype out_event = DeltaEv GameDelta | ErrorEv string | SubscribedEv "string list"

text \<open>
  The module-level state of the Socket.IO server: the \<^verbatim>\<open>socketSubscriptions\<close>
  map, the three counters of \<^verbatim>\<open>stats\<close>, and what lives outside the process
  but is driven by it: the Redis keys with their value and the instant (in seconds)
  at which they expire, the rooms of \<^verbatim>\<open>io\<close>, the events delivered to each
  socket, and the number of lines written by \<^verbatim>\<open>console.error\<close>.
\<close>

record server =
  socketSubscriptions :: "string \<rightharpoonup> string set"
  connectedClients :: int
  messagesReceived :: nat
  messagesBroadcast :: nat
  redis :: "string \<rightharpoonup> (GameState \<times> nat)"
  rooms :: "string \<Rightarrow> string set"
  outbox :: "string \<Rightarrow> out_event list"
  errorsLogged :: nat

text \<open>
  Redis as the relay uses it. \<^verbatim>\<open>GET\<close> returns the value of a key that has not
  expired and changes nothing; \<^verbatim>\<open>SETEX\<close> writes the value and sets the expiry
  to \<open>ttl\<close> seconds from now.
\<close>

definition redis_get :: "(string \<rightharpoonup> (GameState \<times> nat)) \<Rightarrow> nat \<Rightarrow> string \<Rightarrow> GameState option" where
  "redis_get store now k =
     (case store k of
        None \<Rightarrow> None
      | Some (v, expiry) \<Rightarrow> if now < expiry then Some v else None)"

definition redis_setEx ::
  "(string \<rightharpoonup> (GameState \<times> nat)) \<Rightarrow> nat \<Rightarrow> string \<Rightarrow> nat \<Rightarrow> GameState
     \<Rightarrow> (string \<rightharpoonup> (GameState \<times> nat))" where
  "redis_setEx store now k ttl v = store(k \<mapsto> (v, now + ttl))"

text \<open>Whether the two awaited Redis commands of one handler run resolve or reject.\<close>

record redis_outcome =
  get_succeeds :: bool
  setEx_succeeds :: bool

definition redis_up :: redis_outcome where
  "redis_up = \<lparr> get_succeeds = True, setEx_succeeds = True \<rparr>"

text \<open>
  The message of a publication, by what \<^verbatim>\<open>JSON.parse\<close> makes of it: it throws,
  or it yields a snapshot.
\<close>

datatype inbound = Malformed | Payload GameState

definition stateKey :: "string \<Rightarrow> string" where
  "stateKey channel = ''game:state:'' @ channel"

text \<open>\<^verbatim>\<open>io.to(channel).emit(...)\<close>: the event reaches every socket in the room.\<close>

definition io_to_emit :: "string \<Rightarrow> out_event \<Rightarrow> server \<Rightarrow> server" where
  "io_to_emit channel ev st =
     st\<lparr> outbox := (\<lambda>sid. if sid \<in> rooms st channel then outbox st sid @ [ev] else outbox st sid) \<rparr>"

text \<open>The \<^verbatim>\<open>catch\<close> block of the handler.\<close>

definition log_error :: "server \<Rightarrow> server" where
  "log_error st = st\<lparr> errorsLogged := errorsLogged st + 1 \<rparr>"

text \<open>
  The callback of \<^verbatim>\<open>subscriber.subscribe(channel, ...)\<close>, run at instant
  \<open>now\<close>. Everything happens inside one \<^verbatim>\<open>try\<close>: a throw of
  \<^verbatim>\<open>JSON.parse\<close> or a rejected Redis command leaves the rest of the block
  undone and is logged.
\<close>

definition subscribe_handler ::
  "string \<Rightarrow> nat \<Rightarrow> redis_outcome \<Rightarrow> inbound \<Rightarrow> server \<Rightarrow> server" where
  "subscribe_handler channel now env message st =
     (case message of
        Malformed \<Rightarrow> log_error st
      | Payload fullGameState \<Rightarrow>
          (let st1 = st\<lparr> messagesReceived := messagesReceived st + 1 \<rparr> in
           if \<not> get_succeeds env then log_error st1
           else
             (let previousState = redis_get (redis st1) now (stateKey channel);
                  delta = calculateDelta fullGameState previousState in
              if \<not> setEx_succeeds env then log_error st1
              else
                (let st2 = st1\<lparr> redis :=
                             redis_setEx (redis st1) now (stateKey channel) 60 fullGameState \<rparr>;
                     st3 = io_to_emit channel (DeltaEv delta) st2 in
                 st3\<lparr> messagesBroadcast := messagesBroadcast st3 + 1 \<rparr>))))"

text \<open>
  A run of publications on one channel, each decoded and handled with Redis
  answering, in order.
\<close>

fun process_publications :: "string \<Rightarrow> (nat \<times> GameState) list \<Rightarrow> server \<Rightarrow> server" where
  "process_publications channel [] st = st"
| "process_publications channel ((now, s) # ps) st =
     process_publications channel ps (subscribe_handler channel now redis_up (Payload s) st)"

section \<open>Subscription registry\<close>

text \<open>
  The argument a client sends with \<^verbatim>\<open>subscribe\<close> or \<^verbatim>\<open>unsubscribe\<close>:
  an array of game identifiers, or some value that is not an array.
\<close>

datatype js_value = JArray "string list" | JString string | JNumber int | JNull | JUndefined

fun isArray :: "js_value \<Rightarrow> bool" where
  "isArray (JArray gameIds) = True"
| "isArray v = False"

fun elements :: "js_value \<Rightarrow> string list" where
  "elements (JArray gameIds) = gameIds"
| "elements v = []"

text \<open>Calling a method on \<^verbatim>\<open>undefined\<close> throws.\<close>

datatype js_error = TypeError

text \<open>\<^verbatim>\<open>socket.emit(...)\<close>: the event reaches this socket only.\<close>

definition socket_emit :: "string \<Rightarrow> out_event \<Rightarrow> server \<Rightarrow> server" where
  "socket_emit sid ev st = st\<lparr> outbox := (outbox st)(sid := outbox st sid @ [ev]) \<rparr>"

text \<open>The body of the \<^verbatim>\<open>connection\<close> listener, before it registers the handlers.\<close>

definition on_connection :: "string \<Rightarrow> server \<Rightarrow> server" where
  "on_connection sid st =
     st\<lparr> connectedClients := connectedClients st + 1,
         socketSubscriptions := (socketSubscriptions st)(sid \<mapsto> {}) \<rparr>"

text \<open>
  The \<^verbatim>\<open>forEach\<close> of the subscribe handler: the socket joins the room, then the
  identifier is added to the set that was looked up in \<^verbatim>\<open>socketSubscriptions\<close>;
  when the lookup gave \<^verbatim>\<open>undefined\<close>, the call of \<^verbatim>\<open>add\<close> throws.
\<close>

fun subscribe_forEach :: "string \<Rightarrow> string list \<Rightarrow> server \<Rightarrow> js_error + server" where
  "subscribe_forEach sid [] st = Inr st"
| "subscribe_forEach sid (gameId # gameIds) st =
     (let st1 = st\<lparr> rooms := (rooms st)(gameId := insert sid (rooms st gameId)) \<rparr> in
      case socketSubscriptions st1 sid of
        None \<Rightarrow> Inl TypeError
      | Some subscriptions \<Rightarrow>
          subscribe_forEach sid gameIds
            (st1\<lparr> socketSubscriptions :=
                    (socketSubscriptions st1)(sid \<mapsto> insert gameId subscriptions) \<rparr>))"

definition on_subscribe :: "string \<Rightarrow> js_value \<Rightarrow> server \<Rightarrow> js_error + server" where
  "on_subscribe sid gameIds st =
     (if \<not> isArray gameIds
      then Inr (socket_emit sid (ErrorEv ''gameIds must be an array'') st)
      else
        (case subscribe_forEach sid (elements gameIds) st of
           Inl e \<Rightarrow> Inl e
         | Inr st1 \<Rightarrow> Inr (socket_emit sid (SubscribedEv (elements gameIds)) st1)))"

text \<open>The \<^verbatim>\<open>forEach\<close> of the unsubscribe handler: leave the room, delete from the set.\<close>

fun unsubscribe_forEach :: "string \<Rightarrow> string list \<Rightarrow> server \<Rightarrow> js_error + server" where
  "unsubscribe_forEach sid [] st = Inr st"
| "unsubscribe_forEach sid (gameId # gameIds) st =
     (let st1 = st\<lparr> rooms := (rooms st)(gameId := rooms st gameId - {sid}) \<rparr> in
      case socketSubscriptions st1 sid of
        None \<Rightarrow> Inl TypeError
      | Some subscriptions \<Rightarrow>
          unsubscribe_forEach sid gameIds
            (st1\<lparr> socketSubscriptions :=
                    (socketSubscriptions st1)(sid \<mapsto> subscriptions - {gameId}) \<rparr>))"

definition on_unsubscribe :: "string \<Rightarrow> js_value \<Rightarrow> server \<Rightarrow> js_error + server" where
  "on_unsubscribe sid gameIds st =
     (if \<not> isArray gameIds
      then Inr (socket_emit sid (ErrorEv ''gameIds must be an array'') st)
      else unsubscribe_forEach sid (elements gameIds) st)"

text \<open>
  The \<^verbatim>\<open>disconnect\<close> listener. Socket.IO itself has taken the socket out of
  every room by the time the listener runs.
\<close>

definition on_disconnect :: "string \<Rightarrow> server \<Rightarrow> server" where
  "on_disconnect sid st =
     st\<lparr> connectedClients := connectedClients st - 1,
         socketSubscriptions := (socketSubscriptions st)(sid := None),
         rooms := (\<lambda>room. rooms st room - {sid}) \<rparr>"

subsection \<open>Runs of the server\<close>

text \<open>What the event loop hands to the server, one event at a time.\<close>

datatype server_event =
    Connection string
  | Subscribe string js_value
  | Unsubscribe string js_value
  | Disconnect string
  | Publication string nat redis_outcome inbound

fun server_step :: "server_event \<Rightarrow> server \<Rightarrow> js_error + server" where
  "server_step (Connection sid) st = Inr (on_connection sid st)"
| "server_step (Subscribe sid gameIds) st = on_subscribe sid gameIds st"
| "server_step (Unsubscribe sid gameIds) st = on_unsubscribe sid gameIds st"
| "server_step (Disconnect sid) st = Inr (on_disconnect sid st)"
| "server_step (Publication channel now env message) st =
     Inr (subscribe_handler channel now env message st)"

fun run_server :: "server_event list \<Rightarrow> server \<Rightarrow> js_error + server" where
  "run_server [] st = Inr st"
| "run_server (ev # evs) st =
     (case server_step ev st of
        Inl e \<Rightarrow> Inl e
      | Inr st1 \<Rightarrow> run_server evs st1)"

text \<open>
  The runs Socket.IO can produce: the handlers of a socket run only between its
  \<^verbatim>\<open>connection\<close> and its \<^verbatim>\<open>disconnect\<close>. The first argument is the set of
  sockets connected so far; \<open>connected_after\<close> is that set at the end of the run.
\<close>

fun deliverable :: "string set \<Rightarrow> server_event list \<Rightarrow> bool" where
  "deliverable conn [] = True"
| "deliverable conn (Connection sid # evs) = deliverable (insert sid conn) evs"
| "deliverable conn (Subscribe sid gameIds # evs) =
     (sid \<in> conn \<and> deliverable conn evs)"
| "deliverable conn (Unsubscribe sid gameIds # evs) =
     (sid \<in> conn \<and> deliverable conn evs)"
| "deliverable conn (Disconnect sid # evs) =
     (sid \<in> conn \<and> deliverable (conn - {sid}) evs)"
| "deliverable conn (Publication channel now env message # evs) =
     deliverable conn evs"

fun connected_after :: "string set \<Rightarrow> server_event list \<Rightarrow> string set" where
  "connected_after conn [] = conn"
| "connected_after conn (Connection sid # evs) = connected_after (insert sid conn) evs"
| "connected_after conn (Disconnect sid # evs) = connected_after (conn - {sid}) evs"
| "connected_after conn (ev # evs) = connected_after conn evs"

text \<open>The server as the module leaves it at start-up, over whatever Redis holds.\<close>

definition server_start :: "(string \<rightharpoonup> (GameState \<times> nat)) \<Rightarrow> server" where
  "server_start store =
     \<lparr> socketSubscriptions = Map.empty,
       connectedClients = 0, messagesReceived = 0, messagesBroadcast = 0,
       redis = store,
       rooms = (\<lambda>room. {}),
       outbox = (\<lambda>sid. []),
       errorsLogged = 0 \<rparr>"

section \<open>Client-side entity cache\<close>

subsection \<open>The objects involved\<close>

text \<open>
  The cache \<^verbatim>\<open>games\<close> is a plain JavaScript object, and so is each of its
  entries. An entry has own properties that hold numbers, strings or
  \<^verbatim>\<open>undefined\<close>; its prototype is \<^verbatim>\<open>Object.prototype\<close>. A snapshot
  decoded from JSON is the entry with the nine properties of \<^verbatim>\<open>GameState\<close>.
\<close>

datatype js_primitive = Undefined | Num real | Str string

type_synonym js_object = "string \<rightharpoonup> js_primitive"

definition object_of :: "GameState \<Rightarrow> js_object" where
  "object_of game =
     [''id'' \<mapsto> Str (id' game),
      ''homeTeam'' \<mapsto> Str (homeTeam game),
      ''awayTeam'' \<mapsto> Str (awayTeam game),
      ''homeScore'' \<mapsto> Num (of_int (homeScore game)),
      ''awayScore'' \<mapsto> Num (of_int (awayScore game)),
      ''homeOdds'' \<mapsto> Num (homeOdds game),
      ''awayOdds'' \<mapsto> Num (awayOdds game),
      ''drawOdds'' \<mapsto> Num (drawOdds game),
      ''lastUpdated'' \<mapsto> Num (of_int (lastUpdated game))]"

text \<open>
  The cache has own properties, each holding an entry, and a prototype: that is
  \<^verbatim>\<open>Object.prototype\<close> for an object literal, and an entry once an assignment
  to the key \<^verbatim>\<open>__proto__\<close> has replaced it.
\<close>

datatype js_prototype = ObjectPrototype | EntryPrototype js_object

record games_object =
  own :: "string \<rightharpoonup> js_object"
  proto :: js_prototype

text \<open>The object literal \<^verbatim>\<open>{}\<close>.\<close>

definition empty_object :: games_object where
  "empty_object = \<lparr> own = Map.empty, proto = ObjectPrototype \<rparr>"

text \<open>
  What reading a property of the cache can give: nothing, a number or a string (a
  property inherited from an entry that serves as prototype), an entry, or something
  built in (a function of \<^verbatim>\<open>Object.prototype\<close>, or that object itself).
\<close>

datatype js_any = AUndefined | ANumber real | AString string | AnObject js_object | ABuiltin

fun any_of :: "js_primitive \<Rightarrow> js_any" where
  "any_of Undefined = AUndefined"
| "any_of (Num x) = ANumber x"
| "any_of (Str s) = AString s"

text \<open>The function-valued properties of \<^verbatim>\<open>Object.prototype\<close>.\<close>

definition object_prototype_functions :: "string list" where
  "object_prototype_functions =
     [''constructor'', ''__defineGetter__'', ''__defineSetter__'', ''hasOwnProperty'',
      ''__lookupGetter__'', ''__lookupSetter__'', ''isPrototypeOf'',
      ''propertyIsEnumerable'', ''toString'', ''valueOf'', ''toLocaleString'']"

text \<open>
  A read that has reached \<^verbatim>\<open>Object.prototype\<close>: the accessor
  \<^verbatim>\<open>__proto__\<close> gives the prototype of the object that was asked.
\<close>

definition object_prototype_get :: "js_prototype \<Rightarrow> string \<Rightarrow> js_any" where
  "object_prototype_get p k =
     (if k = ''__proto__''
      then (case p of ObjectPrototype \<Rightarrow> ABuiltin | EntryPrototype entry \<Rightarrow> AnObject entry)
      else if k \<in> set object_prototype_functions then ABuiltin
      else AUndefined)"

text \<open>
  \<^verbatim>\<open>prevGames[k]\<close>: the own property if there is one, else what the prototype
  chain gives.
\<close>

definition games_get :: "games_object \<Rightarrow> string \<Rightarrow> js_any" where
  "games_get obj k =
     (case own obj k of
        Some entry \<Rightarrow> AnObject entry
      | None \<Rightarrow>
          (case proto obj of
             ObjectPrototype \<Rightarrow> object_prototype_get ObjectPrototype k
           | EntryPrototype entry \<Rightarrow>
               (case entry k of
                  Some v \<Rightarrow> any_of v
                | None \<Rightarrow> object_prototype_get (EntryPrototype entry) k)))"

text \<open>
  \<^verbatim>\<open>obj[k] = entry\<close>: an own property is written, unless the key is
  \<^verbatim>\<open>__proto__\<close> and is found only as the accessor of
  \<^verbatim>\<open>Object.prototype\<close>, whose setter replaces the prototype.
\<close>

definition games_set :: "string \<Rightarrow> js_object \<Rightarrow> games_object \<Rightarrow> games_object" where
  "games_set k entry obj =
     (if k = ''__proto__'' \<and> own obj k = None
         \<and> (case proto obj of ObjectPrototype \<Rightarrow> True | EntryPrototype p \<Rightarrow> p k = None)
      then obj\<lparr> proto := EntryPrototype entry \<rparr>
      else obj\<lparr> own := (own obj)(k \<mapsto> entry) \<rparr>)"

text \<open>\<^verbatim>\<open>!game\<close> is false for these.\<close>

fun truthy :: "js_any \<Rightarrow> bool" where
  "truthy AUndefined = False"
| "truthy (ANumber x) = (x \<noteq> 0)"
| "truthy (AString s) = (s \<noteq> [])"
| "truthy (AnObject entry) = True"
| "truthy ABuiltin = True"

text \<open>Decimal numerals, the names of the index properties of a string.\<close>

fun decimal :: "nat \<Rightarrow> string" where
  "decimal n =
     (if n < 10 then [''0123456789'' ! n]
      else decimal (n div 10) @ [''0123456789'' ! (n mod 10)])"

text \<open>
  \<^verbatim>\<open>{...game}\<close>: the own enumerable properties of the value. An entry gives
  its properties, a string its characters by index, anything else nothing.
\<close>

fun spread :: "js_any \<Rightarrow> js_object" where
  "spread (AnObject entry) = entry"
| "spread (AString s) = map_of (map (\<lambda>i. (decimal i, Str [s ! i])) [0..<length s])"
| "spread v = Map.empty"

text \<open>
  \<^verbatim>\<open>game.homeOdds\<close> and the like, for the five names that no built-in
  prototype has.
\<close>

fun field :: "js_any \<Rightarrow> string \<Rightarrow> js_primitive" where
  "field (AnObject entry) k = (case entry k of Some v \<Rightarrow> v | None \<Rightarrow> Undefined)"
| "field v k = Undefined"

subsection \<open>Applying a delta\<close>

text \<open>The operator \<^verbatim>\<open>a ?? b\<close> on a key that may be missing.\<close>

definition nullish :: "'a option \<Rightarrow> 'a \<Rightarrow> 'a" where
  "nullish a b = (case a of Some v \<Rightarrow> v | None \<Rightarrow> b)"

text \<open>
  The updater that \<^verbatim>\<open>applyDelta\<close> passes to \<^verbatim>\<open>setGames\<close> (the same in
  both front ends). The result, when it is not \<^verbatim>\<open>prevGames\<close> itself, is an
  object literal: the own properties of \<^verbatim>\<open>prevGames\<close> and the computed key.
\<close>

definition applyDelta_games :: "GameDelta \<Rightarrow> games_object \<Rightarrow> games_object" where
  "applyDelta_games delta prevGames =
     (let game = games_get prevGames (d_id delta) in
      if \<not> truthy game then prevGames
      else
        \<lparr> own = (own prevGames)(d_id delta \<mapsto>
            (spread game)
              (''homeOdds'' \<mapsto> nullish (map_option Num (d_homeOdds delta)) (field game ''homeOdds''),
               ''awayOdds'' \<mapsto> nullish (map_option Num (d_awayOdds delta)) (field game ''awayOdds''),
               ''drawOdds'' \<mapsto> nullish (map_option Num (d_drawOdds delta)) (field game ''drawOdds''),
               ''homeScore'' \<mapsto>
                  nullish (map_option (\<lambda>n. Num (of_int n)) (d_homeScore delta)) (field game ''homeScore''),
               ''awayScore'' \<mapsto>
                  nullish (map_option (\<lambda>n. Num (of_int n)) (d_awayScore delta)) (field game ''awayScore''),
               ''lastUpdated'' \<mapsto> Num (of_int (d_lastUpdated delta)))),
          proto = ObjectPrototype \<rparr>)"

text \<open>
  The loop \<^verbatim>\<open>initialGames.forEach((game) => { gamesMap[game.id] = game; })\<close>
  on a fresh \<^verbatim>\<open>{}\<close>.
\<close>

definition gamesMap :: "GameState list \<Rightarrow> games_object" where
  "gamesMap initialGames =
     fold (\<lambda>game obj. games_set (id' game) (object_of game) obj) initialGames empty_object"

text \<open>
  The listeners of the Socket.IO client: a \<^verbatim>\<open>delta\<close> event is applied, an
  \<^verbatim>\<open>error\<close> event is only logged, and nothing listens to \<^verbatim>\<open>subscribed\<close>.
\<close>

definition socket_on :: "out_event \<Rightarrow> games_object \<Rightarrow> games_object" where
  "socket_on ev prevGames =
     (case ev of
        DeltaEv delta \<Rightarrow> applyDelta_games delta prevGames
      | ErrorEv msg \<Rightarrow> prevGames
      | SubscribedEv gameIds \<Rightarrow> prevGames)"

section \<open>Client transport manager\<close>

subsection \<open>State\<close>

text \<open>
  The \<^verbatim>\<open>Home\<close> component that speaks WebSocket and falls back to long polling.
  Its callbacks are closures: \<^verbatim>\<open>connect\<close> and \<^verbatim>\<open>startPolling\<close> are
  created anew for every subscription set that is rendered and keep that set, and so
  do the socket callbacks, the timer callbacks and the poll loop that they create.
  The refs, in contrast, are shared by all of them.
\<close>

datatype ConnectionType = Websocket | Polling | Disconnected

datatype ready_state = CONNECTING | OPEN | CLOSING | CLOSED

text \<open>
  A socket made by \<^verbatim>\<open>new WebSocket\<close>: its \<^verbatim>\<open>readyState\<close>, and the
  subscription set held by the \<^verbatim>\<open>connect\<close> that made it, which is the set its
  callbacks see.
\<close>

record socket =
  readyState :: ready_state
  captured :: "string list"

text \<open>
  A timer made by \<^verbatim>\<open>setTimeout\<close>: what it will call (a \<^verbatim>\<open>connect\<close> or a
  \<^verbatim>\<open>poll\<close>, with the subscription set that closure holds), its delay in
  milliseconds, and whether it is still pending (neither fired nor cleared). Its
  handle is its position in the list of all timers.
\<close>

datatype callback = CallConnect "string list" | CallPoll "string list"

record timer =
  callback :: callback
  delay :: nat
  pending :: bool

text \<open>
  An HTTP request made by \<^verbatim>\<open>fetch\<close>, with the identifiers it carries (the set
  held by the closure that issued it), and whether it is still in flight.
\<close>

datatype http_request = GetState "string list" | PostPoll "string list"

record request =
  sent :: http_request
  in_flight :: bool

datatype ws_message = SubscribeMsg "string list" | UnsubscribeMsg "string list"

text \<open>
  The React state (\<^verbatim>\<open>games\<close>, \<^verbatim>\<open>connectionType\<close>,
  \<^verbatim>\<open>subscribedGames\<close>, \<^verbatim>\<open>updateCount\<close>), the refs (\<^verbatim>\<open>wsRef\<close> and
  the two timeout refs hold the position of a socket or timer), and everything the
  component has made: sockets, timers, requests, and the messages it has sent, each
  with the socket it was sent on.
\<close>

record client =
  games :: games_object
  connectionType :: ConnectionType
  subscribedGames :: "string list"
  updateCount :: nat
  wsRef :: "nat option"
  pollingRef :: bool
  pollingTimeoutRef :: "nat option"
  reconnectTimeoutRef :: "nat option"
  reconnectAttemptsRef :: nat
  pollingFailuresRef :: nat
  sockets :: "socket list"
  timers :: "timer list"
  requests :: "request list"
  wsSent :: "(nat \<times> ws_message) list"

text \<open>What the socket delivers to \<^verbatim>\<open>onmessage\<close>, by its \<^verbatim>\<open>type\<close>.\<close>

datatype server_message =
    InitialMsg "GameState list"
  | BatchMsg "GameDelta list"
  | DeltaMsg GameDelta
  | OtherMsg

text \<open>
  How a request settles: with a body of type \<^verbatim>\<open>initial\<close>, with a batch, with
  some other body, or not at all (the fetch rejects, the body does not parse, or, for
  a poll, the status is not ok).
\<close>

datatype http_result =
    InitialResponse "GameState list"
  | BatchResponse "GameDelta list"
  | OtherResponse
  | Failed

subsection \<open>Browser primitives\<close>

text \<open>\<^verbatim>\<open>if (ref.current) clearTimeout(ref.current)\<close>.\<close>

fun clearTimeout :: "nat option \<Rightarrow> timer list \<Rightarrow> timer list" where
  "clearTimeout None ts = ts"
| "clearTimeout (Some h) ts =
     (if h < length ts then ts[h := (ts ! h)\<lparr> pending := False \<rparr>] else ts)"

text \<open>\<^verbatim>\<open>fetch(...)\<close>: the request is in flight.\<close>

definition fetch :: "http_request \<Rightarrow> client \<Rightarrow> client" where
  "fetch req c = c\<lparr> requests := requests c @ [\<lparr> sent = req, in_flight = True \<rparr>] \<rparr>"

text \<open>\<^verbatim>\<open>ws.close()\<close>: a socket that is connecting or open starts closing.\<close>

definition ws_close :: "nat \<Rightarrow> socket list \<Rightarrow> socket list" where
  "ws_close i ss =
     (if i < length ss \<and> (readyState (ss ! i) = CONNECTING \<or> readyState (ss ! i) = OPEN)
      then ss[i := (ss ! i)\<lparr> readyState := CLOSING \<rparr>]
      else ss)"

text \<open>
  The socket for which \<^verbatim>\<open>wsRef.current?.readyState === WebSocket.OPEN\<close> holds,
  if there is one.
\<close>

definition open_socket :: "client \<Rightarrow> nat option" where
  "open_socket c =
     (case wsRef c of
        None \<Rightarrow> None
      | Some i \<Rightarrow>
          if i < length (sockets c) \<and> readyState (sockets c ! i) = OPEN then Some i else None)"

subsection \<open>The callbacks\<close>

definition applyDelta :: "GameDelta \<Rightarrow> client \<Rightarrow> client" where
  "applyDelta delta c =
     c\<lparr> updateCount := updateCount c + 1, games := applyDelta_games delta (games c) \<rparr>"

text \<open>
  The inner \<^verbatim>\<open>poll\<close> of the \<^verbatim>\<open>startPolling\<close> that holds the set
  \<open>gameIds\<close>, up to its awaited fetch.
\<close>

definition poll :: "string list \<Rightarrow> client \<Rightarrow> client" where
  "poll gameIds c = (if \<not> pollingRef c then c else fetch (PostPoll gameIds) c)"

text \<open>
  The rest of \<^verbatim>\<open>poll\<close>, once its fetch has settled. On failure the counter is
  incremented first and the delay computed from the incremented counter.
\<close>

definition poll_settled :: "string list \<Rightarrow> http_result \<Rightarrow> client \<Rightarrow> client" where
  "poll_settled gameIds result c =
     (case result of
        Failed \<Rightarrow>
          (let c1 = c\<lparr> pollingFailuresRef := pollingFailuresRef c + 1 \<rparr>;
               d = min (1000 * 2 ^ pollingFailuresRef c1) 30000 in
           if pollingRef c1
           then c1\<lparr> timers := timers c1 @ [\<lparr> callback = CallPoll gameIds, delay = d, pending = True \<rparr>],
                    pollingTimeoutRef := Some (length (timers c1)) \<rparr>
           else c1)
      | BatchResponse deltas \<Rightarrow>
          (let c1 = fold applyDelta deltas c;
               c2 = c1\<lparr> pollingFailuresRef := 0 \<rparr> in
           if pollingRef c2 then poll gameIds c2 else c2)
      | InitialResponse initialGames \<Rightarrow>
          (let c2 = c\<lparr> pollingFailuresRef := 0 \<rparr> in
           if pollingRef c2 then poll gameIds c2 else c2)
      | OtherResponse \<Rightarrow>
          (let c2 = c\<lparr> pollingFailuresRef := 0 \<rparr> in
           if pollingRef c2 then poll gameIds c2 else c2))"

text \<open>
  \<^verbatim>\<open>startPolling\<close> of the closure that holds \<open>gameIds\<close>, up to its awaited
  fetch of the initial state.
\<close>

definition startPolling :: "string list \<Rightarrow> client \<Rightarrow> client" where
  "startPolling gameIds c =
     (if pollingRef c then c
      else fetch (GetState gameIds) (c\<lparr> pollingRef := True, connectionType := Polling \<rparr>))"

text \<open>
  The rest of \<^verbatim>\<open>startPolling\<close>, once that fetch has settled: an
  \<^verbatim>\<open>initial\<close> body replaces the cache, and the poll loop starts.
\<close>

definition startPolling_settled :: "string list \<Rightarrow> http_result \<Rightarrow> client \<Rightarrow> client" where
  "startPolling_settled gameIds result c =
     poll gameIds
       (case result of
          InitialResponse initialGames \<Rightarrow> c\<lparr> games := gamesMap initialGames \<rparr>
        | BatchResponse deltas \<Rightarrow> c
        | OtherResponse \<Rightarrow> c
        | Failed \<Rightarrow> c)"

definition stopPolling :: "client \<Rightarrow> client" where
  "stopPolling c =
     c\<lparr> pollingRef := False,
         pollingFailuresRef := 0,
         timers := clearTimeout (pollingTimeoutRef c) (timers c) \<rparr>"

text \<open>
  \<^verbatim>\<open>connect\<close> of the closure that holds \<open>gameIds\<close>: the one place where a
  socket is constructed.
\<close>

definition connect :: "string list \<Rightarrow> client \<Rightarrow> client" where
  "connect gameIds c =
     (if open_socket c \<noteq> None then c
      else
        (let c1 = stopPolling c in
         c1\<lparr> sockets := sockets c1 @ [\<lparr> readyState = CONNECTING, captured = gameIds \<rparr>],
             wsRef := Some (length (sockets c1)) \<rparr>))"

text \<open>
  The callbacks of the socket \<open>ws\<close>, made by the \<^verbatim>\<open>connect\<close> that holds
  \<open>gameIds\<close>.
\<close>

definition ws_onopen :: "nat \<Rightarrow> string list \<Rightarrow> client \<Rightarrow> client" where
  "ws_onopen ws gameIds c =
     c\<lparr> connectionType := Websocket,
         reconnectAttemptsRef := 0,
         wsSent := wsSent c @ [(ws, SubscribeMsg gameIds)] \<rparr>"

definition ws_onmessage :: "server_message \<Rightarrow> client \<Rightarrow> client" where
  "ws_onmessage msg c =
     (case msg of
        InitialMsg initialGames \<Rightarrow> c\<lparr> games := gamesMap initialGames \<rparr>
      | BatchMsg deltas \<Rightarrow> fold applyDelta deltas c
      | DeltaMsg delta \<Rightarrow> applyDelta delta c
      | OtherMsg \<Rightarrow> c)"

definition ws_onerror :: "client \<Rightarrow> client" where
  "ws_onerror c = c\<lparr> connectionType := Disconnected \<rparr>"

definition ws_onclose :: "string list \<Rightarrow> client \<Rightarrow> client" where
  "ws_onclose gameIds c =
     (let c1 = c\<lparr> connectionType := Disconnected,
                  wsRef := None,
                  reconnectAttemptsRef := reconnectAttemptsRef c + 1 \<rparr> in
      if reconnectAttemptsRef c1 \<ge> 3 then startPolling gameIds c1
      else
        c1\<lparr> timers := timers c1
               @ [\<lparr> callback = CallConnect gameIds,
                    delay = min (1000 * 2 ^ reconnectAttemptsRef c1) 5000,
                    pending = True \<rparr>],
            reconnectTimeoutRef := Some (length (timers c1)) \<rparr>)"

definition handleSubscribe :: "string \<Rightarrow> client \<Rightarrow> client" where
  "handleSubscribe gameId c =
     (let c1 = c\<lparr> subscribedGames :=
                    (if gameId \<in> set (subscribedGames c) then subscribedGames c
                     else subscribedGames c @ [gameId]) \<rparr> in
      case open_socket c1 of
        Some ws \<Rightarrow> c1\<lparr> wsSent := wsSent c1 @ [(ws, SubscribeMsg [gameId])] \<rparr>
      | None \<Rightarrow> c1)"

text \<open>The last step is \<^verbatim>\<open>{ ...prev }\<close> followed by \<^verbatim>\<open>delete\<close>.\<close>

definition handleUnsubscribe :: "string \<Rightarrow> client \<Rightarrow> client" where
  "handleUnsubscribe gameId c =
     (let c1 = c\<lparr> subscribedGames := removeAll gameId (subscribedGames c) \<rparr>;
          c2 = (case open_socket c1 of
                  Some ws \<Rightarrow> c1\<lparr> wsSent := wsSent c1 @ [(ws, UnsubscribeMsg [gameId])] \<rparr>
                | None \<Rightarrow> c1) in
      c2\<lparr> games := \<lparr> own = (own (games c2))(gameId := None), proto = ObjectPrototype \<rparr> \<rparr>)"

text \<open>
  The effect \<^verbatim>\<open>useEffect(() => { connect(); return cleanup }, [connect, stopPolling])\<close>.
  Its clean-up clears the timer in \<^verbatim>\<open>reconnectTimeoutRef\<close>, closes the socket
  in \<^verbatim>\<open>wsRef\<close> and stops polling. Every call of \<^verbatim>\<open>setSubscribedGames\<close>
  renders a new set, hence a new \<^verbatim>\<open>connect\<close>, and React runs the clean-up and
  then the effect again, with the \<^verbatim>\<open>connect\<close> that holds the new set.
\<close>

definition effect_cleanup :: "client \<Rightarrow> client" where
  "effect_cleanup c =
     (let c1 = c\<lparr> timers := clearTimeout (reconnectTimeoutRef c) (timers c) \<rparr>;
          c2 = (case wsRef c1 of
                  None \<Rightarrow> c1
                | Some ws \<Rightarrow> c1\<lparr> sockets := ws_close ws (sockets c1) \<rparr>) in
      stopPolling c2)"

definition effect_rerun :: "client \<Rightarrow> client" where
  "effect_rerun c = connect (subscribedGames c) (effect_cleanup c)"

text \<open>The component when it is first rendered, and after its effect has run once.\<close>

definition client_start :: client where
  "client_start =
     \<lparr> games = empty_object,
       connectionType = Disconnected,
       subscribedGames = [''game1'', ''game2'', ''game3''],
       updateCount = 0,
       wsRef = None,
       pollingRef = False,
       pollingTimeoutRef = None,
       reconnectTimeoutRef = None,
       reconnectAttemptsRef = 0,
       pollingFailuresRef = 0,
       sockets = [],
       timers = [],
       requests = [],
       wsSent = [] \<rparr>"

definition client_mounted :: client where
  "client_mounted = connect (subscribedGames client_start) client_start"

subsection \<open>Runs of the client\<close>

text \<open>
  What the browser hands to the component, one event at a time: an event of a
  socket, a timer that fires, a request that settles, a click. A socket opens only
  while it is connecting, delivers messages only while it is open, and closes once;
  a timer fires only while it is pending; a request settles once. An event that
  cannot happen leaves the state as it is. A click runs the handler, and then the
  effect for the set it has rendered.
\<close>

datatype client_event =
    WsOpen nat
  | WsMessage nat server_message
  | WsError nat
  | WsClose nat
  | TimerFires nat
  | Settled nat http_result
  | ClickSubscribe string
  | ClickUnsubscribe string

fun client_step :: "client_event \<Rightarrow> client \<Rightarrow> client" where
  "client_step (WsOpen ws) c =
     (if ws < length (sockets c) \<and> readyState (sockets c ! ws) = CONNECTING
      then ws_onopen ws (captured (sockets c ! ws))
             (c\<lparr> sockets := (sockets c)[ws := (sockets c ! ws)\<lparr> readyState := OPEN \<rparr>] \<rparr>)
      else c)"
| "client_step (WsMessage ws msg) c =
     (if ws < length (sockets c) \<and> readyState (sockets c ! ws) = OPEN
      then ws_onmessage msg c
      else c)"
| "client_step (WsError ws) c =
     (if ws < length (sockets c) \<and> readyState (sockets c ! ws) \<noteq> CLOSED
      then ws_onerror c
      else c)"
| "client_step (WsClose ws) c =
     (if ws < length (sockets c) \<and> readyState (sockets c ! ws) \<noteq> CLOSED
      then ws_onclose (captured (sockets c ! ws))
             (c\<lparr> sockets := (sockets c)[ws := (sockets c ! ws)\<lparr> readyState := CLOSED \<rparr>] \<rparr>)
      else c)"
| "client_step (TimerFires h) c =
     (if h < length (timers c) \<and> pending (timers c ! h)
      then
        (let c1 = c\<lparr> timers := (timers c)[h := (timers c ! h)\<lparr> pending := False \<rparr>] \<rparr> in
         case callback (timers c ! h) of
           CallConnect gameIds \<Rightarrow> connect gameIds c1
         | CallPoll gameIds \<Rightarrow> poll gameIds c1)
      else c)"
| "client_step (Settled r result) c =
     (if r < length (requests c) \<and> in_flight (requests c ! r)
      then
        (let c1 = c\<lparr> requests := (requests c)[r := (requests c ! r)\<lparr> in_flight := False \<rparr>] \<rparr> in
         case sent (requests c ! r) of
           GetState gameIds \<Rightarrow> startPolling_settled gameIds result c1
         | PostPoll gameIds \<Rightarrow> poll_settled gameIds result c1)
      else c)"
| "client_step (ClickSubscribe gameId) c = effect_rerun (handleSubscribe gameId c)"
| "client_step (ClickUnsubscribe gameId) c = effect_rerun (handleUnsubscribe gameId c)"

definition run_client :: "client_event list \<Rightarrow> client \<Rightarrow> client" where
  "run_client evs c = fold client_step evs c"

fun is_click :: "client_event \<Rightarrow> bool" where
  "is_click (ClickSubscribe gameId) = True"
| "is_click (ClickUnsubscribe gameId) = True"
| "is_click ev = False"

section \<open>Examples\<close>

text \<open>Two snapshots of one game used in the examples below.\<close>

definition arsenal :: GameState where
  "arsenal =
     \<lparr> id' = ''game1'', homeTeam = ''Arsenal'', awayTeam = ''Chelsea'',
       homeScore = 1, awayScore = 1, homeOdds = 5 / 2, awayOdds = 14 / 5,
       drawOdds = 16 / 5, lastUpdated = 1000 \<rparr>"

definition arsenal_renamed :: GameState where
  "arsenal_renamed = arsenal\<lparr> homeTeam := ''Arsenal FC'', lastUpdated := 1200 \<rparr>"

definition odds_only_delta :: GameDelta where
  "odds_only_delta =
     \<lparr> d_id = ''game1'', d_lastUpdated = 1200, d_homeTeam = None, d_awayTeam = None,
       d_homeScore = None, d_awayScore = None, d_homeOdds = Some 3, d_awayOdds = None,
       d_drawOdds = None \<rparr>"

definition one_game :: games_object where
  "one_game = \<lparr> own = [''game1'' \<mapsto> object_of arsenal], proto = ObjectPrototype \<rparr>"

text \<open>
  A server with one socket, subscribed to \<^verbatim>\<open>game1\<close>, and the snapshot
  \<open>arsenal\<close> cached for that channel until second 60.
\<close>

definition server0 :: server where
  "server0 =
     \<lparr> socketSubscriptions = [''sock1'' \<mapsto> {''game1''}],
       connectedClients = 1, messagesReceived = 0, messagesBroadcast = 0,
       redis = [stateKey ''game1'' \<mapsto> (arsenal, 60)],
       rooms = (\<lambda>room. if room = ''game1'' then {''sock1''} else {}),
       outbox = (\<lambda>sid. []),
       errorsLogged = 0 \<rparr>"

definition write_fails :: redis_outcome where
  "write_fails = \<lparr> get_succeeds = True, setEx_succeeds = False \<rparr>"

definition two_updates :: "(nat \<times> GameState) list" where
  "two_updates =
     [(10, arsenal\<lparr> homeOdds := 3, lastUpdated := 1100 \<rparr>),
      (75, arsenal\<lparr> homeOdds := 3, awayScore := 2, lastUpdated := 1200 \<rparr>)]"

text \<open>Two sockets come and go; one request of the second is malformed.\<close>

definition session_trace :: "server_event list" where
  "session_trace =
     [Connection ''sock1'', Subscribe ''sock1'' (JArray [''game1'', ''game2'']),
      Connection ''sock2'', Unsubscribe ''sock1'' (JArray [''game2'']),
      Subscribe ''sock2'' JNull, Disconnect ''sock1'']"

text \<open>A delta for an identifier that no game has.\<close>

definition stray_delta :: GameDelta where
  "stray_delta = odds_only_delta\<lparr> d_id := ''constructor'' \<rparr>"

text \<open>
  Runs of the client from its mounted state. Two and three socket closes in a row,
  with the reconnect timers firing in between, and the client that polls once the
  fetch of the initial state has failed.
\<close>

definition two_failures :: "client_event list" where
  "two_failures = [WsClose 0, TimerFires 0, WsClose 1, TimerFires 1]"

definition three_failures :: "client_event list" where
  "three_failures = two_failures @ [WsClose 2]"

definition polling_client :: client where
  "polling_client = run_client (three_failures @ [Settled 0 Failed]) client_mounted"

text \<open>
  What follows the third close in one session: the initial state arrives, a poll
  fails, its timer fires, a poll returns an empty batch.
\<close>

definition polling_events :: "client_event list" where
  "polling_events =
     [Settled 0 (InitialResponse [arsenal]), Settled 1 Failed, TimerFires 2,
      Settled 2 (BatchResponse [])]"


text \<open>
  The same click, after which both the closed socket and its successor fail, the
  first reconnect timer fires, and the socket it made fails too: the third failure
  in a row, while the second reconnect timer is still pending.
\<close>

definition stale_timer :: "client_event list" where
  "stale_timer =
     [WsOpen 0, WsMessage 0 (InitialMsg [arsenal]), ClickUnsubscribe ''game1'',
      WsClose 0, WsClose 1, TimerFires 0, WsClose 2]"

section \<open>Auxiliary notions for the proofs\<close>

text \<open>The deltas that a run of publications emits on a channel, from the Redis store alone.\<close>

fun emitted_deltas ::
  "(string \<rightharpoonup> (GameState \<times> nat)) \<Rightarrow> string \<Rightarrow> (nat \<times> GameState) list \<Rightarrow> GameDelta list" where
  "emitted_deltas store channel [] = []"
| "emitted_deltas store channel ((now, s) # ps) =
     calculateDelta s (redis_get store now (stateKey channel))
       # emitted_deltas (redis_setEx store now (stateKey channel) 60 s) channel ps"

text \<open>
  The cached base, if there is one, has the scores and odds that the client holds for
  the game.
\<close>

definition base_agrees :: "(GameState \<times> nat) option \<Rightarrow> GameState \<Rightarrow> bool" where
  "base_agrees entry game =
     (case entry of
        None \<Rightarrow> True
      | Some (b, expiry) \<Rightarrow>
          homeScore b = homeScore game \<and> awayScore b = awayScore game
          \<and> homeOdds b = homeOdds game \<and> awayOdds b = awayOdds game
          \<and> drawOdds b = drawOdds game)"

text \<open>
  Sockets that have not closed yet, and pending timers that will call
  \<^verbatim>\<open>connect\<close>: the two things from which a later socket can come.
\<close>

fun is_connect :: "callback \<Rightarrow> bool" where
  "is_connect (CallConnect gameIds) = True"
| "is_connect (CallPoll gameIds) = False"

definition live :: "socket \<Rightarrow> bool" where
  "live s = (readyState s \<noteq> CLOSED)"

definition armed :: "timer \<Rightarrow> bool" where
  "armed t = (pending t \<and> is_connect (callback t))"

definition live_count :: "client \<Rightarrow> nat" where
  "live_count c = length (filter live (sockets c))"

definition armed_count :: "client \<Rightarrow> nat" where
  "armed_count c = length (filter armed (timers c))"

text \<open>
  The two phases of a session in which nothing is clicked: pushing (not polling, and
  at most one live socket or pending reconnect timer), and polling (every socket
  closed, no reconnect timer pending).
\<close>

definition push_phase :: "client \<Rightarrow> bool" where
  "push_phase c = (\<not> pollingRef c \<and> live_count c + armed_count c \<le> 1)"

definition polling_phase :: "client \<Rightarrow> bool" where
  "polling_phase c =
     (pollingRef c \<and> connectionType c = Polling \<and> live_count c = 0 \<and> armed_count c = 0)"

text \<open>The delay of the timer in \<^verbatim>\<open>pollingTimeoutRef\<close>, while it is pending.\<close>

definition poll_delay :: "client \<Rightarrow> nat option" where
  "poll_delay c =
     (case pollingTimeoutRef c of
        None \<Rightarrow> None
      | Some h \<Rightarrow>
          if h < length (timers c) \<and> pending (timers c ! h) then Some (delay (timers c ! h))
          else None)"

section \<open>Properties of the delta computation\<close>

text \<open>
  C1 (as amended). Against a previous snapshot that is present, the delta carries the
  identifier and the timestamp of the new snapshot, and for each of the two scores and
  the three odds the key is present exactly when the new value differs from the
  previous one (and then holds the new value). The two team names are never part of
  such a delta, whether they changed or not.
\<close>

theorem calculateDelta_present:
  "d_id (calculateDelta s (Some prev)) = id' s
   \<and> d_lastUpdated (calculateDelta s (Some prev)) = lastUpdated s
   \<and> d_homeScore (calculateDelta s (Some prev))
       = (if homeScore s \<noteq> homeScore prev then Some (homeScore s) else None)
   \<and> d_awayScore (calculateDelta s (Some prev))
       = (if awayScore s \<noteq> awayScore prev then Some (awayScore s) else None)
   \<and> d_homeOdds (calculateDelta s (Some prev))
       = (if homeOdds s \<noteq> homeOdds prev then Some (homeOdds s) else None)
   \<and> d_awayOdds (calculateDelta s (Some prev))
       = (if awayOdds s \<noteq> awayOdds prev then Some (awayOdds s) else None)
   \<and> d_drawOdds (calculateDelta s (Some prev))
       = (if drawOdds s \<noteq> drawOdds prev then Some (drawOdds s) else None)
   \<and> d_homeTeam (calculateDelta s (Some prev)) = None
   \<and> d_awayTeam (calculateDelta s (Some prev)) = None"
  by (simp add: calculateDelta_def)

text \<open>
  C1 as stated fails for the team names: the home team differs between the two
  snapshots, and the delta does not contain it.
\<close>

theorem calculateDelta_team_name_counterexample:
  "\<not> ((d_homeTeam (calculateDelta arsenal_renamed (Some arsenal)) \<noteq> None)
        = (homeTeam arsenal_renamed \<noteq> homeTeam arsenal))"
  by (simp add: calculateDelta_def arsenal_renamed_def arsenal_def)

section \<open>Properties of the client-side cache\<close>

text \<open>A snapshot is determined by its entry.\<close>

lemma object_of_inject: "object_of a = object_of b \<Longrightarrow> a = b"
proof -
  assume e: "object_of a = object_of b"
  have "object_of a k = object_of b k" for k using e by simp
  from this [of "''id''"] this [of "''homeTeam''"] this [of "''awayTeam''"]
    this [of "''homeScore''"] this [of "''awayScore''"] this [of "''homeOdds''"]
    this [of "''awayOdds''"] this [of "''drawOdds''"] this [of "''lastUpdated''"]
  show ?thesis by (cases a; cases b) (simp add: object_of_def)
qed

text \<open>
  What the updater does, case by case. When the value read under the delta's
  identifier is falsy, the cache is returned as it is; that is so for an identifier
  that is neither an own key nor a name on \<^verbatim>\<open>Object.prototype\<close>, in a cache
  with the standard prototype. When the identifier is an own key, that entry alone is
  rewritten: each score and each odds value becomes the delta's value when the delta
  has the key and stays as it was otherwise, the timestamp becomes the delta's, every
  other property of the entry stays. In every case the other own keys keep their
  entries.
\<close>

lemma applyDelta_frame:
  "(\<not> truthy (games_get prevGames (d_id delta)) \<longrightarrow> applyDelta_games delta prevGames = prevGames)
   \<and> (own prevGames (d_id delta) = None \<and> proto prevGames = ObjectPrototype
        \<and> d_id delta \<noteq> ''__proto__'' \<and> d_id delta \<notin> set object_prototype_functions \<longrightarrow>
        applyDelta_games delta prevGames = prevGames)
   \<and> (\<forall>game. own prevGames (d_id delta) = Some game \<longrightarrow>
        own (applyDelta_games delta prevGames) (d_id delta)
          = Some (game
              (''homeOdds'' \<mapsto> (case d_homeOdds delta of Some v \<Rightarrow> Num v | None \<Rightarrow> field (AnObject game) ''homeOdds''),
               ''awayOdds'' \<mapsto> (case d_awayOdds delta of Some v \<Rightarrow> Num v | None \<Rightarrow> field (AnObject game) ''awayOdds''),
               ''drawOdds'' \<mapsto> (case d_drawOdds delta of Some v \<Rightarrow> Num v | None \<Rightarrow> field (AnObject game) ''drawOdds''),
               ''homeScore'' \<mapsto> (case d_homeScore delta of Some v \<Rightarrow> Num (of_int v) | None \<Rightarrow> field (AnObject game) ''homeScore''),
               ''awayScore'' \<mapsto> (case d_awayScore delta of Some v \<Rightarrow> Num (of_int v) | None \<Rightarrow> field (AnObject game) ''awayScore''),
               ''lastUpdated'' \<mapsto> Num (of_int (d_lastUpdated delta)))))
   \<and> (\<forall>k. k \<noteq> d_id delta \<longrightarrow> own (applyDelta_games delta prevGames) k = own prevGames k)"
  by (auto simp add: applyDelta_games_def games_get_def object_prototype_get_def nullish_def Let_def
        split: option.splits)

text \<open>
  C8. The code at an identifier that is not in the cache but is a name on
  \<^verbatim>\<open>Object.prototype\<close>: the cache holds \<^verbatim>\<open>game1\<close> only, the delta
  carries the identifier \<^verbatim>\<open>constructor\<close>. The read finds the inherited
  function, which is truthy, so the early return is skipped and an entry is inserted
  under \<^verbatim>\<open>constructor\<close>: the cache is not left unchanged.
\<close>

theorem applyDelta_inherited_identifier:
  "own one_game ''constructor'' = None
   \<and> own (applyDelta_games stray_delta one_game) ''constructor''
       = Some [''homeOdds'' \<mapsto> Num 3, ''awayOdds'' \<mapsto> Undefined, ''drawOdds'' \<mapsto> Undefined,
               ''homeScore'' \<mapsto> Undefined, ''awayScore'' \<mapsto> Undefined,
               ''lastUpdated'' \<mapsto> Num 1200]
   \<and> applyDelta_games stray_delta one_game \<noteq> one_game"
proof -
  have g: "games_get one_game ''constructor'' = ABuiltin"
    by (simp add: games_get_def one_game_def object_prototype_get_def object_prototype_functions_def)
  have a: "own one_game ''constructor'' = None" by (simp add: one_game_def)
  have b: "own (applyDelta_games stray_delta one_game) ''constructor''
       = Some [''homeOdds'' \<mapsto> Num 3, ''awayOdds'' \<mapsto> Undefined, ''drawOdds'' \<mapsto> Undefined,
               ''homeScore'' \<mapsto> Undefined, ''awayScore'' \<mapsto> Undefined,
               ''lastUpdated'' \<mapsto> Num 1200]"
    by (simp add: applyDelta_games_def stray_delta_def odds_only_delta_def g nullish_def)
  from a b have "own (applyDelta_games stray_delta one_game) \<noteq> own one_game"
    by (metis option.distinct(1))
  then have "applyDelta_games stray_delta one_game \<noteq> one_game" by auto
  with a b show ?thesis by simp
qed

section \<open>Properties of the relay's handler\<close>

lemma subscribe_handler_redis_up:
  "subscribe_handler channel now redis_up (Payload s) st =
     st\<lparr> messagesReceived := messagesReceived st + 1,
         redis := redis_setEx (redis st) now (stateKey channel) 60 s,
         outbox := (\<lambda>sid. if sid \<in> rooms st channel
                      then outbox st sid
                        @ [DeltaEv (calculateDelta s (redis_get (redis st) now (stateKey channel)))]
                      else outbox st sid),
         messagesBroadcast := messagesBroadcast st + 1 \<rparr>"
  by (simp add: subscribe_handler_def Let_def io_to_emit_def redis_up_def cong: if_cong)

lemma subscribe_handler_setEx_rejected:
  "\<not> setEx_succeeds env \<Longrightarrow>
   subscribe_handler channel now env (Payload s) st =
     st\<lparr> messagesReceived := messagesReceived st + 1, errorsLogged := errorsLogged st + 1 \<rparr>"
  by (simp add: subscribe_handler_def Let_def log_error_def)

text \<open>
  C3. Whenever a publication decodes and the two Redis commands of the handler
  succeed, the channel's key holds the new snapshot with an expiry of 60 seconds from
  now, whatever the previous entry, its age and the computed delta were; no other key
  is touched. A handler run that does not reach the write (the message does not
  decode, or a Redis command is rejected) leaves the store as it was, expiry
  included: reading the entry never extends its life.
\<close>

theorem snapshot_stored_on_every_publication:
  "(get_succeeds env \<and> setEx_succeeds env \<longrightarrow>
      redis (subscribe_handler channel now env (Payload s) st)
        = (redis st)(stateKey channel \<mapsto> (s, now + 60))
      \<and> redis_get (redis (subscribe_handler channel now env (Payload s) st)) t (stateKey channel)
        = (if t < now + 60 then Some s else None))
   \<and> (\<not> (get_succeeds env \<and> setEx_succeeds env) \<longrightarrow>
        redis (subscribe_handler channel now env (Payload s) st) = redis st)
   \<and> redis (subscribe_handler channel now env Malformed st) = redis st"
  by (auto simp add: subscribe_handler_def Let_def io_to_emit_def log_error_def
        redis_setEx_def redis_get_def)

text \<open>
  The instance: the republished snapshot differs from the cached one in its timestamp
  only, so the delta has no score and no odds, and the entry is rewritten with a new
  expiry all the same.
\<close>

theorem snapshot_stored_on_every_publication_witness:
  "d_homeScore (calculateDelta (arsenal\<lparr> lastUpdated := 1200 \<rparr>) (redis_get (redis server0) 30 (stateKey ''game1''))) = None
   \<and> d_homeOdds (calculateDelta (arsenal\<lparr> lastUpdated := 1200 \<rparr>) (redis_get (redis server0) 30 (stateKey ''game1''))) = None
   \<and> redis (subscribe_handler ''game1'' 30 redis_up (Payload (arsenal\<lparr> lastUpdated := 1200 \<rparr>)) server0)
        (stateKey ''game1'')
       = Some (arsenal\<lparr> lastUpdated := 1200 \<rparr>, 90)
   \<and> redis (subscribe_handler ''game1'' 30 write_fails (Payload (arsenal\<lparr> lastUpdated := 1200 \<rparr>)) server0)
        (stateKey ''game1'')
       = Some (arsenal, 60)"
  using snapshot_stored_on_every_publication
          [of redis_up "''game1''" 30 "arsenal\<lparr> lastUpdated := 1200 \<rparr>" server0]
        snapshot_stored_on_every_publication
          [of write_fails "''game1''" 30 "arsenal\<lparr> lastUpdated := 1200 \<rparr>" server0]
  by (simp add: redis_up_def write_fails_def server0_def calculateDelta_def redis_get_def)

text \<open>
  C9 (as amended). A rejected cache write is not fatal: the handler returns, having
  logged the error. That publication is not broadcast at all: no socket receives
  anything, the counter of broadcasts stays, and the cache keeps what it had. The
  relay goes on: the next publication, handled with Redis answering, is broadcast as
  the delta against whatever the cache still holds for the channel.
\<close>

theorem cache_write_failure_drops_publication:
  "\<not> setEx_succeeds env \<Longrightarrow>
     outbox (subscribe_handler channel now env (Payload s) st) = outbox st
     \<and> redis (subscribe_handler channel now env (Payload s) st) = redis st
     \<and> rooms (subscribe_handler channel now env (Payload s) st) = rooms st
     \<and> messagesBroadcast (subscribe_handler channel now env (Payload s) st) = messagesBroadcast st
     \<and> messagesReceived (subscribe_handler channel now env (Payload s) st) = messagesReceived st + 1
     \<and> errorsLogged (subscribe_handler channel now env (Payload s) st) = errorsLogged st + 1
     \<and> outbox (subscribe_handler channel now2 redis_up (Payload s2)
                 (subscribe_handler channel now env (Payload s) st))
         = (\<lambda>sid. if sid \<in> rooms st channel
               then outbox st sid
                 @ [DeltaEv (calculateDelta s2 (redis_get (redis st) now2 (stateKey channel)))]
               else outbox st sid)"
  by (simp add: subscribe_handler_redis_up subscribe_handler_setEx_rejected cong: if_cong)

theorem cache_write_failure_drops_publication_witness:
  "\<not> setEx_succeeds write_fails
   \<and> outbox (subscribe_handler ''game1'' 10 write_fails (Payload arsenal_renamed) server0) ''sock1'' = []
   \<and> errorsLogged (subscribe_handler ''game1'' 10 write_fails (Payload arsenal_renamed) server0) = 1"
  using cache_write_failure_drops_publication
          [of write_fails "''game1''" 10 arsenal_renamed server0]
  by (simp add: write_fails_def server0_def)

text \<open>
  C9 as stated fails: the socket subscribed to the channel receives no full-snapshot
  delta (it receives nothing) for a publication whose cache write is rejected.
\<close>

theorem cache_write_failure_counterexample:
  "\<not> (DeltaEv (fullStateAsDelta arsenal_renamed)
         \<in> set (outbox (subscribe_handler ''game1'' 10 write_fails (Payload arsenal_renamed) server0)
                  ''sock1''))"
  by (simp add: subscribe_handler_def Let_def log_error_def write_fails_def server0_def)

section \<open>Convergence of the client's cache\<close>

lemma outbox_process_publications:
  "sid \<in> rooms st channel \<Longrightarrow>
   outbox (process_publications channel ps st) sid
     = outbox st sid @ map DeltaEv (emitted_deltas (redis st) channel ps)"
proof (induction ps arbitrary: st)
  case Nil
  then show ?case by simp
next
  case (Cons p ps)
  obtain now s where p: "p = (now, s)" by (cases p)
  let ?st' = "subscribe_handler channel now redis_up (Payload s) st"
  have r: "rooms ?st' = rooms st" by (simp add: subscribe_handler_redis_up)
  have "outbox (process_publications channel ps ?st') sid
          = outbox ?st' sid @ map DeltaEv (emitted_deltas (redis ?st') channel ps)"
    using Cons.IH [of ?st'] Cons.prems r by simp
  then show ?case
    using Cons.prems by (simp add: p subscribe_handler_redis_up)
qed

lemma socket_on_DeltaEv:
  "socket_on (DeltaEv delta) prevGames = applyDelta_games delta prevGames"
  by (simp add: socket_on_def)

lemma delta_merges_to_snapshot:
  assumes "base_agrees (store k) g"
  shows "nullish (d_homeOdds (calculateDelta s (redis_get store now k))) (homeOdds g) = homeOdds s
     \<and> nullish (d_awayOdds (calculateDelta s (redis_get store now k))) (awayOdds g) = awayOdds s
     \<and> nullish (d_drawOdds (calculateDelta s (redis_get store now k))) (drawOdds g) = drawOdds s
     \<and> nullish (d_homeScore (calculateDelta s (redis_get store now k))) (homeScore g) = homeScore s
     \<and> nullish (d_awayScore (calculateDelta s (redis_get store now k))) (awayScore g) = awayScore s
     \<and> d_lastUpdated (calculateDelta s (redis_get store now k)) = lastUpdated s
     \<and> d_id (calculateDelta s (redis_get store now k)) = id' s"
  using assms
  by (auto simp add: calculateDelta_def fullStateAsDelta_def redis_get_def base_agrees_def
        nullish_def split: option.splits)

lemma nullish_field_object_of:
  "nullish (map_option Num x) (field (AnObject (object_of g)) ''homeOdds'') = Num (nullish x (homeOdds g))"
  "nullish (map_option Num x) (field (AnObject (object_of g)) ''awayOdds'') = Num (nullish x (awayOdds g))"
  "nullish (map_option Num x) (field (AnObject (object_of g)) ''drawOdds'') = Num (nullish x (drawOdds g))"
  "nullish (map_option (\<lambda>n. Num (of_int n)) y) (field (AnObject (object_of g)) ''homeScore'')
     = Num (of_int (nullish y (homeScore g)))"
  "nullish (map_option (\<lambda>n. Num (of_int n)) y) (field (AnObject (object_of g)) ''awayScore'')
     = Num (of_int (nullish y (awayScore g)))"
  by (simp_all add: nullish_def object_of_def split: option.splits)

lemma object_of_update:
  "(object_of g)
     (''homeOdds'' \<mapsto> Num ho, ''awayOdds'' \<mapsto> Num ao, ''drawOdds'' \<mapsto> Num dr,
      ''homeScore'' \<mapsto> Num (of_int hs), ''awayScore'' \<mapsto> Num (of_int as),
      ''lastUpdated'' \<mapsto> Num (of_int lu))
   = object_of (g\<lparr> homeOdds := ho, awayOdds := ao, drawOdds := dr, homeScore := hs,
                   awayScore := as, lastUpdated := lu \<rparr>)"
  by (rule ext) (simp add: object_of_def)

lemma apply_emitted_delta:
  assumes "id' s = id' g"
    and "own games0 (id' g) = Some (object_of g)"
    and "base_agrees (store (stateKey channel)) g"
  shows "applyDelta_games (calculateDelta s (redis_get store now (stateKey channel))) games0
           = \<lparr> own = (own games0)(id' g \<mapsto>
                        object_of (s\<lparr> homeTeam := homeTeam g, awayTeam := awayTeam g \<rparr>)),
               proto = ObjectPrototype \<rparr>"
proof -
  let ?d = "calculateDelta s (redis_get store now (stateKey channel))"
  have m: "nullish (d_homeOdds ?d) (homeOdds g) = homeOdds s
     \<and> nullish (d_awayOdds ?d) (awayOdds g) = awayOdds s
     \<and> nullish (d_drawOdds ?d) (drawOdds g) = drawOdds s
     \<and> nullish (d_homeScore ?d) (homeScore g) = homeScore s
     \<and> nullish (d_awayScore ?d) (awayScore g) = awayScore s
     \<and> d_lastUpdated ?d = lastUpdated s
     \<and> d_id ?d = id' s"
    using assms(3) by (rule delta_merges_to_snapshot)
  have i: "d_id ?d = id' g" using m assms(1) by simp
  have g: "games_get games0 (d_id ?d) = AnObject (object_of g)"
    using assms(2) i by (simp add: games_get_def)
  have r: "g\<lparr> homeOdds := homeOdds s, awayOdds := awayOdds s, drawOdds := drawOdds s,
              homeScore := homeScore s, awayScore := awayScore s, lastUpdated := lastUpdated s \<rparr>
           = s\<lparr> homeTeam := homeTeam g, awayTeam := awayTeam g \<rparr>"
    using assms(1) by (cases s; cases g) simp
  show ?thesis
    unfolding applyDelta_games_def Let_def g
    by (simp add: nullish_field_object_of m object_of_update r assms(1) del: fun_upd_apply field.simps)
qed

lemma fold_emitted_deltas:
  assumes "\<forall>p \<in> set ps. id' (snd p) = id' g"
    and "own games0 (id' g) = Some (object_of g)"
    and "base_agrees (store (stateKey channel)) g"
  shows "own (fold socket_on (map DeltaEv (emitted_deltas store channel ps)) games0) (id' g)
           = Some (object_of
               ((last (g # map snd ps))\<lparr> homeTeam := homeTeam g, awayTeam := awayTeam g \<rparr>))"
  using assms
proof (induction ps arbitrary: store games0 g)
  case Nil
  then show ?case by simp
next
  case (Cons p ps)
  obtain now s where p: "p = (now, s)" by (cases p)
  let ?g1 = "s\<lparr> homeTeam := homeTeam g, awayTeam := awayTeam g \<rparr>"
  let ?games1 = "\<lparr> own = (own games0)(id' g \<mapsto> object_of ?g1), proto = ObjectPrototype \<rparr>"
  let ?store1 = "redis_setEx store now (stateKey channel) 60 s"
  have ids: "id' s = id' g" using Cons.prems(1) by (simp add: p)
  have step: "applyDelta_games (calculateDelta s (redis_get store now (stateKey channel))) games0
                = ?games1"
    using ids Cons.prems(2) Cons.prems(3) by (rule apply_emitted_delta)
  have id1: "id' ?g1 = id' g" using ids by simp
  have a: "\<forall>p \<in> set ps. id' (snd p) = id' ?g1" using Cons.prems(1) id1 by simp
  have b: "own ?games1 (id' ?g1) = Some (object_of ?g1)" using id1 by simp
  have c: "base_agrees (?store1 (stateKey channel)) ?g1"
    by (simp add: redis_setEx_def base_agrees_def)
  have "own (fold socket_on (map DeltaEv (emitted_deltas ?store1 channel ps)) ?games1) (id' ?g1)
          = Some (object_of
              ((last (?g1 # map snd ps))\<lparr> homeTeam := homeTeam ?g1, awayTeam := awayTeam ?g1 \<rparr>))"
    using a b c by (rule Cons.IH)
  then show ?case
    using id1 by (simp add: p socket_on_DeltaEv step)
qed

text \<open>
  C2 (as amended). The client holds the initial snapshot \<open>s0\<close> under its
  identifier; the relay's cache for the channel is empty or holds \<open>s0\<close>; the
  socket is in the channel's room. The relay handles the publications \<open>ps\<close> in
  order, every one with the identifier of \<open>s0\<close>, with Redis answering, at any
  instants (so a cached base may have expired in between). The client applies, in
  order, exactly the events its socket received from this run. Then its entry has the
  identifier, scores, odds and timestamp of the last published snapshot and the team
  names of \<open>s0\<close>; it is the last published snapshot itself whenever that one
  has the team names of \<open>s0\<close>.
\<close>

theorem no_loss_convergence:
  assumes "\<forall>p \<in> set ps. id' (snd p) = id' s0"
    and "sid \<in> rooms st channel"
    and "redis st (stateKey channel) = None
         \<or> (\<exists>expiry. redis st (stateKey channel) = Some (s0, expiry))"
    and "own games0 (id' s0) = Some (object_of s0)"
  shows "own (fold socket_on
                (drop (length (outbox st sid)) (outbox (process_publications channel ps st) sid))
                games0) (id' s0)
         = Some (object_of
             ((last (s0 # map snd ps))\<lparr> homeTeam := homeTeam s0, awayTeam := awayTeam s0 \<rparr>))
       \<and> (homeTeam (last (s0 # map snd ps)) = homeTeam s0
            \<and> awayTeam (last (s0 # map snd ps)) = awayTeam s0 \<longrightarrow>
          own (fold socket_on
                 (drop (length (outbox st sid)) (outbox (process_publications channel ps st) sid))
                 games0) (id' s0)
          = Some (object_of (last (s0 # map snd ps))))"
proof -
  have base: "base_agrees (redis st (stateKey channel)) s0"
    using assms(3) by (auto simp add: base_agrees_def)
  have "drop (length (outbox st sid)) (outbox (process_publications channel ps st) sid)
          = map DeltaEv (emitted_deltas (redis st) channel ps)"
    using outbox_process_publications [OF assms(2)] by simp
  moreover have "own (fold socket_on (map DeltaEv (emitted_deltas (redis st) channel ps)) games0)
            (id' s0)
          = Some (object_of
              ((last (s0 # map snd ps))\<lparr> homeTeam := homeTeam s0, awayTeam := awayTeam s0 \<rparr>))"
    using assms(1) assms(4) base by (rule fold_emitted_deltas)
  ultimately have main: "own (fold socket_on
           (drop (length (outbox st sid)) (outbox (process_publications channel ps st) sid))
           games0) (id' s0)
         = Some (object_of
             ((last (s0 # map snd ps))\<lparr> homeTeam := homeTeam s0, awayTeam := awayTeam s0 \<rparr>))"
    by simp
  have same: "x\<lparr> homeTeam := homeTeam x, awayTeam := awayTeam x \<rparr> = x" for x :: GameState
    by (cases x) simp
  show ?thesis
  proof (intro conjI impI)
    show "own (fold socket_on
           (drop (length (outbox st sid)) (outbox (process_publications channel ps st) sid))
           games0) (id' s0)
         = Some (object_of
             ((last (s0 # map snd ps))\<lparr> homeTeam := homeTeam s0, awayTeam := awayTeam s0 \<rparr>))"
      by (rule main)
  next
    assume "homeTeam (last (s0 # map snd ps)) = homeTeam s0
            \<and> awayTeam (last (s0 # map snd ps)) = awayTeam s0"
    then have "(last (s0 # map snd ps))\<lparr> homeTeam := homeTeam s0, awayTeam := awayTeam s0 \<rparr>
                 = last (s0 # map snd ps)"
      using same [of "last (s0 # map snd ps)"] by simp
    with main show "own (fold socket_on
           (drop (length (outbox st sid)) (outbox (process_publications channel ps st) sid))
           games0) (id' s0)
         = Some (object_of (last (s0 # map snd ps)))"
      by simp
  qed
qed

text \<open>
  The instance: two updates of \<open>arsenal\<close>, the second handled after the cached
  base has expired; the client ends with the second snapshot.
\<close>

theorem no_loss_convergence_witness:
  "''sock1'' \<in> rooms server0 ''game1''
   \<and> own one_game (id' arsenal) = Some (object_of arsenal)
   \<and> own (fold socket_on (outbox (process_publications ''game1'' two_updates server0) ''sock1'')
        one_game) ''game1''
     = Some (object_of (arsenal\<lparr> homeOdds := 3, awayScore := 2, lastUpdated := 1200 \<rparr>))"
  using no_loss_convergence
          [where ps = two_updates and ?s0.0 = arsenal and sid = "''sock1''" and st = server0
             and channel = "''game1''" and ?games0.0 = one_game]
  by (simp add: two_updates_def server0_def one_game_def arsenal_def)

text \<open>
  C2 as stated fails: the relay's cache and the client both hold \<open>arsenal\<close>; one
  publication renames the home team; after the client has applied everything its
  socket received, its entry is not the published snapshot.
\<close>

theorem no_loss_convergence_counterexample:
  "own (fold socket_on
          (outbox (process_publications ''game1'' [(10, arsenal_renamed)] server0) ''sock1'')
          one_game) ''game1''
   \<noteq> Some (object_of arsenal_renamed)"
proof -
  have r: "''sock1'' \<in> rooms server0 ''game1''" by (simp add: server0_def)
  have o: "outbox (process_publications ''game1'' [(10, arsenal_renamed)] server0) ''sock1''
             = map DeltaEv (emitted_deltas (redis server0) ''game1'' [(10, arsenal_renamed)])"
    using outbox_process_publications [OF r, of "[(10, arsenal_renamed)]"]
    by (simp add: server0_def)
  have a: "\<forall>p \<in> set [(10::nat, arsenal_renamed)]. id' (snd p) = id' arsenal"
    by (simp add: arsenal_renamed_def)
  have b: "own one_game (id' arsenal) = Some (object_of arsenal)"
    by (simp add: one_game_def arsenal_def)
  have c: "base_agrees (redis server0 (stateKey ''game1'')) arsenal"
    by (simp add: server0_def base_agrees_def)
  have l: "(last (arsenal # map snd [(10::nat, arsenal_renamed)]))
               \<lparr> homeTeam := homeTeam arsenal, awayTeam := awayTeam arsenal \<rparr>
             = arsenal_renamed\<lparr> homeTeam := ''Arsenal'', awayTeam := ''Chelsea'' \<rparr>"
    by (simp add: arsenal_def)
  have i: "id' arsenal = ''game1''" by (simp add: arsenal_def)
  have "own (fold socket_on
               (map DeltaEv (emitted_deltas (redis server0) ''game1'' [(10, arsenal_renamed)]))
               one_game) (id' arsenal)
          = Some (object_of
              ((last (arsenal # map snd [(10::nat, arsenal_renamed)]))
                 \<lparr> homeTeam := homeTeam arsenal, awayTeam := awayTeam arsenal \<rparr>))"
    using a b c by (rule fold_emitted_deltas)
  then have e: "own (fold socket_on
               (outbox (process_publications ''game1'' [(10, arsenal_renamed)] server0) ''sock1'')
               one_game) ''game1''
          = Some (object_of (arsenal_renamed\<lparr> homeTeam := ''Arsenal'', awayTeam := ''Chelsea'' \<rparr>))"
    by (simp only: o l i)
  have "object_of (arsenal_renamed\<lparr> homeTeam := ''Arsenal'', awayTeam := ''Chelsea'' \<rparr>) ''homeTeam''
          \<noteq> object_of arsenal_renamed ''homeTeam''"
    by (simp add: object_of_def arsenal_renamed_def)
  then have "object_of (arsenal_renamed\<lparr> homeTeam := ''Arsenal'', awayTeam := ''Chelsea'' \<rparr>)
               \<noteq> object_of arsenal_renamed"
    by metis
  with e show ?thesis by simp
qed

section \<open>Properties of the subscription registry\<close>

text \<open>
  C4. A subscribe or unsubscribe request whose argument is not an array is answered
  with one \<^verbatim>\<open>error\<close> event on the requesting socket and nothing else: the
  handler returns normally, the subscription sets, the rooms and the cache are as
  before, and no other socket receives anything.
\<close>

theorem malformed_request_rejected:
  assumes "\<not> isArray gameIds"
  shows "on_subscribe sid gameIds st = Inr (socket_emit sid (ErrorEv ''gameIds must be an array'') st)
     \<and> on_unsubscribe sid gameIds st = Inr (socket_emit sid (ErrorEv ''gameIds must be an array'') st)
     \<and> socketSubscriptions (socket_emit sid (ErrorEv ''gameIds must be an array'') st) = socketSubscriptions st
     \<and> rooms (socket_emit sid (ErrorEv ''gameIds must be an array'') st) = rooms st
     \<and> redis (socket_emit sid (ErrorEv ''gameIds must be an array'') st) = redis st
     \<and> outbox (socket_emit sid (ErrorEv ''gameIds must be an array'') st) sid
          = outbox st sid @ [ErrorEv ''gameIds must be an array'']
     \<and> (\<forall>other. other \<noteq> sid \<longrightarrow>
           outbox (socket_emit sid (ErrorEv ''gameIds must be an array'') st) other = outbox st other)"
  using assms by (simp add: on_subscribe_def on_unsubscribe_def socket_emit_def)

theorem malformed_request_rejected_witness:
  "\<not> isArray (JString ''game1'')
   \<and> on_subscribe ''sock2'' (JString ''game1'') server0
       = Inr (server0\<lparr> outbox := (outbox server0)(''sock2'' := [ErrorEv ''gameIds must be an array'']) \<rparr>)
   \<and> on_unsubscribe ''sock1'' JNull server0
       = Inr (server0\<lparr> outbox := (outbox server0)(''sock1'' := [ErrorEv ''gameIds must be an array'']) \<rparr>)"
  using malformed_request_rejected [of "JString ''game1''" "''sock2''" server0]
    malformed_request_rejected [of JNull "''sock1''" server0]
  by (simp add: socket_emit_def server0_def)

lemma subscribe_forEach_ok:
  "sid \<in> dom (socketSubscriptions st) \<Longrightarrow>
   \<exists>st'. subscribe_forEach sid gameIds st = Inr st'
         \<and> dom (socketSubscriptions st') = dom (socketSubscriptions st)"
proof (induction gameIds arbitrary: st)
  case Nil
  then show ?case by simp
next
  case (Cons gameId gameIds)
  then obtain subscriptions where s: "socketSubscriptions st sid = Some subscriptions" by auto
  let ?st2 = "st\<lparr> rooms := (rooms st)(gameId := insert sid (rooms st gameId)),
                  socketSubscriptions := (socketSubscriptions st)(sid \<mapsto> insert gameId subscriptions) \<rparr>"
  have d: "dom (socketSubscriptions ?st2) = dom (socketSubscriptions st)"
    using s by auto
  have "sid \<in> dom (socketSubscriptions ?st2)" by simp
  from Cons.IH [OF this] obtain st' where
    "subscribe_forEach sid gameIds ?st2 = Inr st'"
    "dom (socketSubscriptions st') = dom (socketSubscriptions ?st2)" by blast
  then show ?case using s d by (simp add: Let_def)
qed

lemma unsubscribe_forEach_ok:
  "sid \<in> dom (socketSubscriptions st) \<Longrightarrow>
   \<exists>st'. unsubscribe_forEach sid gameIds st = Inr st'
         \<and> dom (socketSubscriptions st') = dom (socketSubscriptions st)"
proof (induction gameIds arbitrary: st)
  case Nil
  then show ?case by simp
next
  case (Cons gameId gameIds)
  then obtain subscriptions where s: "socketSubscriptions st sid = Some subscriptions" by auto
  let ?st2 = "st\<lparr> rooms := (rooms st)(gameId := rooms st gameId - {sid}),
                  socketSubscriptions := (socketSubscriptions st)(sid \<mapsto> subscriptions - {gameId}) \<rparr>"
  have d: "dom (socketSubscriptions ?st2) = dom (socketSubscriptions st)"
    using s by auto
  have "sid \<in> dom (socketSubscriptions ?st2)" by simp
  from Cons.IH [OF this] obtain st' where
    "unsubscribe_forEach sid gameIds ?st2 = Inr st'"
    "dom (socketSubscriptions st') = dom (socketSubscriptions ?st2)" by blast
  then show ?case using s d by (simp add: Let_def)
qed

lemma on_subscribe_ok:
  assumes "sid \<in> dom (socketSubscriptions st)"
  shows "\<exists>st'. on_subscribe sid gameIds st = Inr st'
         \<and> dom (socketSubscriptions st') = dom (socketSubscriptions st)"
proof (cases "isArray gameIds")
  case True
  from subscribe_forEach_ok [OF assms, of "elements gameIds"] obtain st1 where
    "subscribe_forEach sid (elements gameIds) st = Inr st1"
    "dom (socketSubscriptions st1) = dom (socketSubscriptions st)" by blast
  then show ?thesis using True by (simp add: on_subscribe_def socket_emit_def)
next
  case False
  then show ?thesis by (simp add: on_subscribe_def socket_emit_def)
qed

lemma on_unsubscribe_ok:
  assumes "sid \<in> dom (socketSubscriptions st)"
  shows "\<exists>st'. on_unsubscribe sid gameIds st = Inr st'
         \<and> dom (socketSubscriptions st') = dom (socketSubscriptions st)"
proof (cases "isArray gameIds")
  case True
  then show ?thesis
    using unsubscribe_forEach_ok [OF assms, of "elements gameIds"]
    by (simp add: on_unsubscribe_def)
next
  case False
  then show ?thesis by (simp add: on_unsubscribe_def socket_emit_def)
qed

lemma subscribe_handler_socketSubscriptions:
  "socketSubscriptions (subscribe_handler channel now env message st) = socketSubscriptions st"
  by (cases message)
     (simp_all add: subscribe_handler_def Let_def log_error_def io_to_emit_def)

text \<open>
  C10. Start from a state in which exactly the connected sockets have an entry in
  \<^verbatim>\<open>socketSubscriptions\<close> (at start-up: none is connected and the map is
  empty). Then every run that Socket.IO can produce goes through without a handler
  throwing, and at its end again exactly the connected sockets have an entry. Every
  prefix of such a run is such a run, so this holds at every point of it.
\<close>

theorem subscription_set_exists_while_connected:
  assumes "deliverable conn evs" and "dom (socketSubscriptions st) = conn"
  shows "\<exists>st'. run_server evs st = Inr st'
           \<and> dom (socketSubscriptions st') = connected_after conn evs"
  using assms
proof (induction evs arbitrary: conn st)
  case Nil
  then show ?case by simp
next
  case (Cons ev evs)
  show ?case
  proof (cases ev)
    case (Connection sid)
    have "dom (socketSubscriptions (on_connection sid st)) = insert sid conn"
      using Cons.prems(2) by (simp add: on_connection_def)
    moreover have "deliverable (insert sid conn) evs"
      using Cons.prems(1) Connection by simp
    ultimately show ?thesis
      using Cons.IH [of "insert sid conn" "on_connection sid st"] Connection by simp
  next
    case (Subscribe sid gameIds)
    then have m: "sid \<in> dom (socketSubscriptions st)" and d: "deliverable conn evs"
      using Cons.prems by simp_all
    from on_subscribe_ok [OF m, of gameIds] obtain st1 where
      s: "on_subscribe sid gameIds st = Inr st1"
      and "dom (socketSubscriptions st1) = dom (socketSubscriptions st)" by blast
    then have "dom (socketSubscriptions st1) = conn" using Cons.prems(2) by simp
    from Cons.IH [OF d this] show ?thesis using Subscribe s by simp
  next
    case (Unsubscribe sid gameIds)
    then have m: "sid \<in> dom (socketSubscriptions st)" and d: "deliverable conn evs"
      using Cons.prems by simp_all
    from on_unsubscribe_ok [OF m, of gameIds] obtain st1 where
      s: "on_unsubscribe sid gameIds st = Inr st1"
      and "dom (socketSubscriptions st1) = dom (socketSubscriptions st)" by blast
    then have "dom (socketSubscriptions st1) = conn" using Cons.prems(2) by simp
    from Cons.IH [OF d this] show ?thesis using Unsubscribe s by simp
  next
    case (Disconnect sid)
    have "dom (socketSubscriptions (on_disconnect sid st)) = conn - {sid}"
      using Cons.prems(2) by (auto simp add: on_disconnect_def)
    moreover have "deliverable (conn - {sid}) evs"
      using Cons.prems(1) Disconnect by simp
    ultimately show ?thesis
      using Cons.IH [of "conn - {sid}" "on_disconnect sid st"] Disconnect by simp
  next
    case (Publication channel now env message)
    have "dom (socketSubscriptions (subscribe_handler channel now env message st)) = conn"
      using Cons.prems(2) by (simp add: subscribe_handler_socketSubscriptions)
    moreover have "deliverable conn evs"
      using Cons.prems(1) Publication by simp
    ultimately show ?thesis
      using Cons.IH [of conn "subscribe_handler channel now env message st"] Publication by simp
  qed
qed

theorem subscription_set_exists_while_connected_witness:
  "deliverable {} session_trace
   \<and> dom (socketSubscriptions (server_start Map.empty)) = {}
   \<and> (\<exists>st'. run_server session_trace (server_start Map.empty) = Inr st'
         \<and> dom (socketSubscriptions st') = {''sock2''})"
proof -
  have d: "deliverable {} session_trace"
    by (simp add: session_trace_def)
  have e: "dom (socketSubscriptions (server_start Map.empty)) = {}"
    by (simp add: server_start_def)
  have c: "connected_after {} session_trace = {''sock2''}"
    by (auto simp add: session_trace_def)
  show ?thesis
    using subscription_set_exists_while_connected [OF d e] c d e by simp
qed

text \<open>
  Outside such runs the handler does throw: a subscribe for a socket that never
  connected finds no set.
\<close>

lemma subscribe_without_connection_throws:
  "run_server [Subscribe ''sock1'' (JArray [''game1''])] (server_start Map.empty) = Inl TypeError"
  by (simp add: on_subscribe_def server_start_def)

section \<open>Properties of the client transport manager\<close>

subsection \<open>Evaluating runs\<close>

lemmas client_defs =
  run_client_def client_mounted_def client_start_def connect_def open_socket_def stopPolling_def
  ws_onclose_def ws_onopen_def ws_onmessage_def startPolling_def startPolling_settled_def
  poll_def poll_settled_def fetch_def effect_rerun_def effect_cleanup_def ws_close_def
  handleUnsubscribe_def Let_def

lemma run_client_append: "run_client (evs @ evs') c = run_client evs' (run_client evs c)"
  by (simp add: run_client_def)

lemma run_client_Cons: "run_client (ev # evs) c = run_client evs (client_step ev c)"
  by (simp add: run_client_def)

lemma run_client_Nil: "run_client [] c = c"
  by (simp add: run_client_def)

lemma arsenal_id: "id' arsenal = ''game1''"
  by (simp add: arsenal_def)

lemma gamesMap_arsenal:
  "gamesMap [arsenal] = \<lparr> own = [''game1'' \<mapsto> object_of arsenal], proto = ObjectPrototype \<rparr>"
  by (simp add: gamesMap_def games_set_def empty_object_def arsenal_id)

lemma two_failures_state:
  "run_client two_failures client_mounted =
     client_start
       \<lparr> sockets := [\<lparr> readyState = CLOSED, captured = [''game1'', ''game2'', ''game3''] \<rparr>,
                     \<lparr> readyState = CLOSED, captured = [''game1'', ''game2'', ''game3''] \<rparr>,
                     \<lparr> readyState = CONNECTING, captured = [''game1'', ''game2'', ''game3''] \<rparr>],
         timers := [\<lparr> callback = CallConnect [''game1'', ''game2'', ''game3''], delay = 2000, pending = False \<rparr>,
                    \<lparr> callback = CallConnect [''game1'', ''game2'', ''game3''], delay = 4000, pending = False \<rparr>],
         wsRef := Some 2, reconnectTimeoutRef := Some 1, reconnectAttemptsRef := 2 \<rparr>"
  by (simp add: two_failures_def client_defs)

lemma three_failures_state:
  "run_client three_failures client_mounted =
     client_start
       \<lparr> connectionType := Polling, pollingRef := True, reconnectAttemptsRef := 3,
         reconnectTimeoutRef := Some 1,
         sockets := [\<lparr> readyState = CLOSED, captured = [''game1'', ''game2'', ''game3''] \<rparr>,
                     \<lparr> readyState = CLOSED, captured = [''game1'', ''game2'', ''game3''] \<rparr>,
                     \<lparr> readyState = CLOSED, captured = [''game1'', ''game2'', ''game3''] \<rparr>],
         timers := [\<lparr> callback = CallConnect [''game1'', ''game2'', ''game3''], delay = 2000, pending = False \<rparr>,
                    \<lparr> callback = CallConnect [''game1'', ''game2'', ''game3''], delay = 4000, pending = False \<rparr>],
         requests := [\<lparr> sent = GetState [''game1'', ''game2'', ''game3''], in_flight = True \<rparr>] \<rparr>"
  by (simp add: three_failures_def run_client_append run_client_Cons run_client_Nil
        two_failures_state client_start_def ws_onclose_def startPolling_def fetch_def Let_def)

lemma initial_state_fetched:
  "run_client (three_failures @ [Settled 0 (InitialResponse [arsenal])]) client_mounted =
     client_start
       \<lparr> games := \<lparr> own = [''game1'' \<mapsto> object_of arsenal], proto = ObjectPrototype \<rparr>,
         connectionType := Polling, pollingRef := True, reconnectAttemptsRef := 3,
         reconnectTimeoutRef := Some 1,
         sockets := [\<lparr> readyState = CLOSED, captured = [''game1'', ''game2'', ''game3''] \<rparr>,
                     \<lparr> readyState = CLOSED, captured = [''game1'', ''game2'', ''game3''] \<rparr>,
                     \<lparr> readyState = CLOSED, captured = [''game1'', ''game2'', ''game3''] \<rparr>],
         timers := [\<lparr> callback = CallConnect [''game1'', ''game2'', ''game3''], delay = 2000, pending = False \<rparr>,
                    \<lparr> callback = CallConnect [''game1'', ''game2'', ''game3''], delay = 4000, pending = False \<rparr>],
         requests := [\<lparr> sent = GetState [''game1'', ''game2'', ''game3''], in_flight = False \<rparr>,
                      \<lparr> sent = PostPoll [''game1'', ''game2'', ''game3''], in_flight = True \<rparr>] \<rparr>"
  by (simp add: run_client_append run_client_Cons run_client_Nil three_failures_state
        client_start_def startPolling_settled_def poll_def fetch_def Let_def gamesMap_arsenal)

lemma polling_client_state:
  "polling_client =
     client_start
       \<lparr> connectionType := Polling, pollingRef := True, reconnectAttemptsRef := 3,
         reconnectTimeoutRef := Some 1,
         sockets := [\<lparr> readyState = CLOSED, captured = [''game1'', ''game2'', ''game3''] \<rparr>,
                     \<lparr> readyState = CLOSED, captured = [''game1'', ''game2'', ''game3''] \<rparr>,
                     \<lparr> readyState = CLOSED, captured = [''game1'', ''game2'', ''game3''] \<rparr>],
         timers := [\<lparr> callback = CallConnect [''game1'', ''game2'', ''game3''], delay = 2000, pending = False \<rparr>,
                    \<lparr> callback = CallConnect [''game1'', ''game2'', ''game3''], delay = 4000, pending = False \<rparr>],
         requests := [\<lparr> sent = GetState [''game1'', ''game2'', ''game3''], in_flight = False \<rparr>,
                      \<lparr> sent = PostPoll [''game1'', ''game2'', ''game3''], in_flight = True \<rparr>] \<rparr>"
  by (simp add: polling_client_def three_failures_def two_failures_def client_defs)

subsection \<open>Sessions without clicks\<close>

lemma length_filter_update:
  "i < length xs \<Longrightarrow>
   length (filter P (xs[i := x])) + (if P (xs ! i) then 1 else 0)
     = length (filter P xs) + (if P x then 1 else 0)"
proof (induction xs arbitrary: i)
  case Nil
  then show ?case by simp
next
  case (Cons a xs)
  then show ?case by (cases i) auto
qed

lemma none_filtered:
  "length (filter P xs) = 0 \<Longrightarrow> i < length xs \<Longrightarrow> \<not> P (xs ! i)"
  by (metis filter_empty_conv length_0_conv nth_mem)

lemma none_live_all_closed:
  "length (filter live ss) = 0 \<Longrightarrow> \<forall>s \<in> set ss. readyState s = CLOSED"
  by (simp add: filter_empty_conv live_def)

lemma clearTimeout_armed:
  "length (filter armed (clearTimeout r ts)) \<le> length (filter armed ts)"
proof (cases r)
  case None
  then show ?thesis by simp
next
  case (Some h)
  show ?thesis
  proof (cases "h < length ts")
    case True
    have "\<not> armed ((ts ! h)\<lparr> pending := False \<rparr>)" by (simp add: armed_def)
    then show ?thesis
      using length_filter_update [OF True, of armed "(ts ! h)\<lparr> pending := False \<rparr>"] Some True
      by (simp split: if_splits)
  next
    case False
    then show ?thesis using Some by simp
  qed
qed

lemma fold_applyDelta_transport:
  "pollingRef (fold applyDelta deltas c) = pollingRef c
   \<and> connectionType (fold applyDelta deltas c) = connectionType c
   \<and> wsRef (fold applyDelta deltas c) = wsRef c
   \<and> reconnectTimeoutRef (fold applyDelta deltas c) = reconnectTimeoutRef c
   \<and> pollingTimeoutRef (fold applyDelta deltas c) = pollingTimeoutRef c
   \<and> pollingFailuresRef (fold applyDelta deltas c) = pollingFailuresRef c
   \<and> reconnectAttemptsRef (fold applyDelta deltas c) = reconnectAttemptsRef c
   \<and> subscribedGames (fold applyDelta deltas c) = subscribedGames c
   \<and> sockets (fold applyDelta deltas c) = sockets c
   \<and> timers (fold applyDelta deltas c) = timers c
   \<and> requests (fold applyDelta deltas c) = requests c
   \<and> wsSent (fold applyDelta deltas c) = wsSent c"
  by (induction deltas arbitrary: c) (simp_all add: applyDelta_def)

lemma stopPolling_counts:
  "sockets (stopPolling c) = sockets c"
  "length (filter armed (timers (stopPolling c))) \<le> length (filter armed (timers c))"
  "\<not> pollingRef (stopPolling c)"
  by (simp_all add: stopPolling_def clearTimeout_armed)

lemma polling_phase_step:
  assumes "polling_phase c" and "\<not> is_click ev"
  shows "polling_phase (client_step ev c) \<and> sockets (client_step ev c) = sockets c"
proof -
  have p: "pollingRef c" and t: "connectionType c = Polling"
    and l: "length (filter live (sockets c)) = 0" and a: "length (filter armed (timers c)) = 0"
    using assms(1) by (simp_all add: polling_phase_def live_count_def armed_count_def)
  have closed: "readyState (sockets c ! i) = CLOSED" if "i < length (sockets c)" for i
    using none_filtered [OF l that] by (simp add: live_def)
  show ?thesis
  proof (cases ev)
    case (WsOpen ws)
    then show ?thesis using assms(1) closed [of ws] by auto
  next
    case (WsMessage ws msg)
    then show ?thesis using assms(1) closed [of ws] by auto
  next
    case (WsError ws)
    then show ?thesis using assms(1) closed [of ws] by auto
  next
    case (WsClose ws)
    then show ?thesis using assms(1) closed [of ws] by auto
  next
    case (TimerFires h)
    show ?thesis
    proof (cases "h < length (timers c) \<and> pending (timers c ! h)")
      case False
      then show ?thesis using TimerFires assms(1) by auto
    next
      case True
      then have h: "h < length (timers c)" and pd: "pending (timers c ! h)" by simp_all
      have na: "\<not> armed (timers c ! h)" using none_filtered [OF a h] .
      then obtain gameIds where cb: "callback (timers c ! h) = CallPoll gameIds"
        using pd by (cases "callback (timers c ! h)") (simp_all add: armed_def)
      have "\<not> armed ((timers c ! h)\<lparr> pending := False \<rparr>)" by (simp add: armed_def)
      then have "length (filter armed ((timers c)[h := (timers c ! h)\<lparr> pending := False \<rparr>])) = 0"
        using length_filter_update [OF h, of armed "(timers c ! h)\<lparr> pending := False \<rparr>"] na a
        by simp
      then show ?thesis
        using TimerFires True cb p t l
        by (simp add: polling_phase_def live_count_def armed_count_def poll_def fetch_def Let_def)
    qed
  next
    case (Settled r result)
    show ?thesis
    proof (cases "r < length (requests c) \<and> in_flight (requests c ! r)")
      case False
      then show ?thesis using Settled assms(1) by auto
    next
      case True
      show ?thesis
      proof (cases "sent (requests c ! r)")
        case (GetState gameIds)
        then show ?thesis
          using Settled True p t l a
          by (cases result)
             (simp_all add: polling_phase_def live_count_def armed_count_def
                startPolling_settled_def poll_def fetch_def Let_def)
      next
        case (PostPoll gameIds)
        then show ?thesis
          using Settled True p t l a
          by (cases result)
             (simp_all add: polling_phase_def live_count_def armed_count_def
                poll_settled_def poll_def fetch_def Let_def fold_applyDelta_transport armed_def)
      qed
    qed
  next
    case (ClickSubscribe gameId)
    then show ?thesis using assms(2) by simp
  next
    case (ClickUnsubscribe gameId)
    then show ?thesis using assms(2) by simp
  qed
qed

lemma push_phase_step:
  assumes "push_phase c" and "\<not> is_click ev"
  shows "push_phase (client_step ev c) \<or> polling_phase (client_step ev c)"
proof -
  have np: "\<not> pollingRef c"
    and le: "length (filter live (sockets c)) + length (filter armed (timers c)) \<le> 1"
    using assms(1) by (simp_all add: push_phase_def live_count_def armed_count_def)
  show ?thesis
  proof (cases ev)
    case (WsOpen ws)
    show ?thesis
    proof (cases "ws < length (sockets c) \<and> readyState (sockets c ! ws) = CONNECTING")
      case False
      then show ?thesis using WsOpen assms(1) by auto
    next
      case True
      then have w: "ws < length (sockets c)" and "live (sockets c ! ws)"
        by (simp_all add: live_def)
      moreover have "live ((sockets c ! ws)\<lparr> readyState := OPEN \<rparr>)" by (simp add: live_def)
      ultimately have "length (filter live ((sockets c)[ws := (sockets c ! ws)\<lparr> readyState := OPEN \<rparr>]))
                         = length (filter live (sockets c))"
        using length_filter_update [OF w, of live "(sockets c ! ws)\<lparr> readyState := OPEN \<rparr>"]
        by simp
      then show ?thesis
        using WsOpen True np le
        by (simp add: push_phase_def live_count_def armed_count_def ws_onopen_def)
    qed
  next
    case (WsMessage ws msg)
    then show ?thesis
      using assms(1)
      by (cases msg)
         (auto simp add: push_phase_def ws_onmessage_def applyDelta_def live_count_def
            armed_count_def fold_applyDelta_transport)
  next
    case (WsError ws)
    then show ?thesis
      using assms(1) by (auto simp add: push_phase_def ws_onerror_def live_count_def armed_count_def)
  next
    case (WsClose ws)
    show ?thesis
    proof (cases "ws < length (sockets c) \<and> readyState (sockets c ! ws) \<noteq> CLOSED")
      case False
      then show ?thesis using WsClose assms(1) by auto
    next
      case True
      then have w: "ws < length (sockets c)" and lv: "live (sockets c ! ws)"
        by (simp_all add: live_def)
      have "\<not> live ((sockets c ! ws)\<lparr> readyState := CLOSED \<rparr>)" by (simp add: live_def)
      then have "length (filter live ((sockets c)[ws := (sockets c ! ws)\<lparr> readyState := CLOSED \<rparr>])) + 1
                   = length (filter live (sockets c))"
        using length_filter_update [OF w, of live "(sockets c ! ws)\<lparr> readyState := CLOSED \<rparr>"] lv
        by simp
      then have l0: "length (filter live ((sockets c)[ws := (sockets c ! ws)\<lparr> readyState := CLOSED \<rparr>])) = 0"
        and a0: "length (filter armed (timers c)) = 0"
        using le by linarith+
      show ?thesis
        using WsClose True np l0 a0
        by (simp add: push_phase_def polling_phase_def live_count_def armed_count_def
              ws_onclose_def startPolling_def fetch_def Let_def armed_def)
    qed
  next
    case (TimerFires h)
    show ?thesis
    proof (cases "h < length (timers c) \<and> pending (timers c ! h)")
      case False
      then show ?thesis using TimerFires assms(1) by auto
    next
      case True
      then have h: "h < length (timers c)" and pd: "pending (timers c ! h)" by simp_all
      let ?ts = "(timers c)[h := (timers c ! h)\<lparr> pending := False \<rparr>]"
      let ?c1 = "c\<lparr> timers := ?ts \<rparr>"
      have nw: "\<not> armed ((timers c ! h)\<lparr> pending := False \<rparr>)" by (simp add: armed_def)
      show ?thesis
      proof (cases "callback (timers c ! h)")
        case (CallPoll gameIds)
        then have "\<not> armed (timers c ! h)" by (simp add: armed_def)
        then have "length (filter armed ?ts) = length (filter armed (timers c))"
          using length_filter_update [OF h, of armed "(timers c ! h)\<lparr> pending := False \<rparr>"] nw
          by simp
        then show ?thesis
          using TimerFires True CallPoll np le
          by (simp add: push_phase_def live_count_def armed_count_def poll_def Let_def)
      next
        case (CallConnect gameIds)
        then have "armed (timers c ! h)" using pd by (simp add: armed_def)
        then have "length (filter armed ?ts) + 1 = length (filter armed (timers c))"
          using length_filter_update [OF h, of armed "(timers c ! h)\<lparr> pending := False \<rparr>"] nw
          by simp
        then have a0: "length (filter armed ?ts) = 0" and l0: "length (filter live (sockets c)) = 0"
          using le by linarith+
        have closed: "readyState (sockets c ! i) = CLOSED" if "i < length (sockets c)" for i
          using none_filtered [OF l0 that] by (simp add: live_def)
        have no_open: "open_socket ?c1 = None"
          using closed by (auto simp add: open_socket_def split: option.splits)
        have "length (filter armed (timers ?c1)) = 0" using a0 by simp
        moreover have "length (filter armed (timers (stopPolling ?c1)))
                         \<le> length (filter armed (timers ?c1))"
          by (rule stopPolling_counts)
        ultimately have a1: "length (filter armed (timers (stopPolling ?c1))) = 0"
          by linarith
        have "push_phase (connect gameIds ?c1)"
          using no_open a1 l0
          by (simp add: connect_def Let_def push_phase_def live_count_def armed_count_def
                stopPolling_counts live_def)
        then show ?thesis
          using TimerFires True CallConnect by (simp add: Let_def)
      qed
    qed
  next
    case (Settled r result)
    show ?thesis
    proof (cases "r < length (requests c) \<and> in_flight (requests c ! r)")
      case False
      then show ?thesis using Settled assms(1) by auto
    next
      case True
      show ?thesis
      proof (cases "sent (requests c ! r)")
        case (GetState gameIds)
        then show ?thesis
          using Settled True np le
          by (cases result)
             (simp_all add: push_phase_def live_count_def armed_count_def
                startPolling_settled_def poll_def Let_def)
      next
        case (PostPoll gameIds)
        then show ?thesis
          using Settled True np le
          by (cases result)
             (simp_all add: push_phase_def live_count_def armed_count_def
                poll_settled_def poll_def Let_def fold_applyDelta_transport)
      qed
    qed
  next
    case (ClickSubscribe gameId)
    then show ?thesis using assms(2) by simp
  next
    case (ClickUnsubscribe gameId)
    then show ?thesis using assms(2) by simp
  qed
qed

lemma push_phase_mounted: "push_phase client_mounted"
  by (simp add: push_phase_def client_mounted_def client_start_def connect_def open_socket_def
        stopPolling_def Let_def live_count_def armed_count_def live_def)

lemma phases_run:
  assumes "push_phase c \<or> polling_phase c" and "\<forall>ev \<in> set evs. \<not> is_click ev"
  shows "push_phase (run_client evs c) \<or> polling_phase (run_client evs c)"
  using assms
proof (induction evs arbitrary: c)
  case Nil
  then show ?case by (simp add: run_client_def)
next
  case (Cons ev evs)
  have e: "\<not> is_click ev" and r: "\<forall>ev \<in> set evs. \<not> is_click ev"
    using Cons.prems(2) by simp_all
  have "push_phase (client_step ev c) \<or> polling_phase (client_step ev c)"
    using Cons.prems(1) push_phase_step [OF _ e] polling_phase_step [OF _ e] by blast
  from Cons.IH [OF this r] show ?case by (simp add: run_client_def)
qed

lemma polling_phase_run:
  assumes "polling_phase c" and "\<forall>ev \<in> set evs. \<not> is_click ev"
  shows "polling_phase (run_client evs c) \<and> sockets (run_client evs c) = sockets c"
  using assms
proof (induction evs arbitrary: c)
  case Nil
  then show ?case by (simp add: run_client_def)
next
  case (Cons ev evs)
  have e: "\<not> is_click ev" and r: "\<forall>ev \<in> set evs. \<not> is_click ev"
    using Cons.prems(2) by simp_all
  have s: "polling_phase (client_step ev c)" and w: "sockets (client_step ev c) = sockets c"
    using polling_phase_step [OF Cons.prems(1) e] by simp_all
  show ?case
    using Cons.IH [OF s r] w by (simp add: run_client_def)
qed

text \<open>
  C6 (as amended). Take a session in which no subscribe or unsubscribe action is
  taken: any run \<open>evs\<close> of socket events, timers and settled requests from the
  mounted component. When a socket closes with the reconnect counter at 2 (the third
  failure in a row), the manager is polling from then on: that callback constructs
  no socket, every socket is closed, and whatever socket events, timers and settled
  requests follow (\<open>evs'\<close>), it stays in Polling and constructs no socket.
\<close>

theorem third_failure_enters_polling:
  assumes "\<forall>ev \<in> set evs. \<not> is_click ev"
    and "\<forall>ev \<in> set evs'. \<not> is_click ev"
    and "c = run_client evs client_mounted"
    and "reconnectAttemptsRef c = 2"
    and "ws < length (sockets c)"
    and "readyState (sockets c ! ws) \<noteq> CLOSED"
  shows "connectionType (client_step (WsClose ws) c) = Polling
     \<and> pollingRef (client_step (WsClose ws) c)
     \<and> length (sockets (client_step (WsClose ws) c)) = length (sockets c)
     \<and> (\<forall>s \<in> set (sockets (client_step (WsClose ws) c)). readyState s = CLOSED)
     \<and> connectionType (run_client evs' (client_step (WsClose ws) c)) = Polling
     \<and> pollingRef (run_client evs' (client_step (WsClose ws) c))
     \<and> sockets (run_client evs' (client_step (WsClose ws) c)) = sockets (client_step (WsClose ws) c)"
proof -
  define c3 where "c3 = client_step (WsClose ws) c"
  have inv: "push_phase c \<or> polling_phase c"
    using phases_run [OF _ assms(1), of client_mounted] push_phase_mounted assms(3) by simp
  have lv: "live (sockets c ! ws)" using assms(6) by (simp add: live_def)
  have "\<not> polling_phase c"
  proof
    assume "polling_phase c"
    then have "length (filter live (sockets c)) = 0"
      unfolding polling_phase_def live_count_def by blast
    from none_filtered [OF this assms(5)] lv show False by simp
  qed
  with inv have push: "push_phase c" by simp
  have nc: "\<not> is_click (WsClose ws)" by simp
  have np: "\<not> pollingRef c" using push unfolding push_phase_def by blast
  have pr: "pollingRef c3"
    using assms(4-6) np by (simp add: c3_def ws_onclose_def startPolling_def fetch_def Let_def)
  have len: "length (sockets c3) = length (sockets c)"
    using assms(4-6) np by (simp add: c3_def ws_onclose_def startPolling_def fetch_def Let_def)
  have "\<not> push_phase c3" using pr unfolding push_phase_def by blast
  moreover have "push_phase c3 \<or> polling_phase c3"
    unfolding c3_def using push nc by (rule push_phase_step)
  ultimately have pol: "polling_phase c3" by blast
  then have l0: "length (filter live (sockets c3)) = 0"
    unfolding polling_phase_def live_count_def by blast
  then have closed: "\<forall>s \<in> set (sockets c3). readyState s = CLOSED"
    by (rule none_live_all_closed)
  have run: "polling_phase (run_client evs' c3) \<and> sockets (run_client evs' c3) = sockets c3"
    using pol assms(2) by (rule polling_phase_run)
  have "connectionType c3 = Polling \<and> pollingRef c3
     \<and> length (sockets c3) = length (sockets c)
     \<and> (\<forall>s \<in> set (sockets c3). readyState s = CLOSED)
     \<and> connectionType (run_client evs' c3) = Polling
     \<and> pollingRef (run_client evs' c3)
     \<and> sockets (run_client evs' c3) = sockets c3"
    using pol len closed run unfolding polling_phase_def by blast
  then show ?thesis unfolding c3_def .
qed

text \<open>
  The instance: the third close after two closes and two reconnects, followed by the
  arrival of the initial state and three polls.
\<close>

theorem third_failure_enters_polling_witness:
  "reconnectAttemptsRef (run_client two_failures client_mounted) = 2
   \<and> readyState (sockets (run_client two_failures client_mounted) ! 2) = CONNECTING
   \<and> connectionType (run_client (three_failures @ polling_events) client_mounted) = Polling
   \<and> pollingRef (run_client (three_failures @ polling_events) client_mounted)
   \<and> length (sockets (run_client (three_failures @ polling_events) client_mounted)) = 3"
proof -
  let ?c = "run_client two_failures client_mounted"
  have a: "\<forall>ev \<in> set two_failures. \<not> is_click ev" by (simp add: two_failures_def)
  have b: "\<forall>ev \<in> set polling_events. \<not> is_click ev" by (simp add: polling_events_def)
  have d: "reconnectAttemptsRef ?c = 2" and e: "2 < length (sockets ?c)"
    and f: "readyState (sockets ?c ! 2) \<noteq> CLOSED" and g: "readyState (sockets ?c ! 2) = CONNECTING"
    and n: "length (sockets ?c) = 3"
    by (simp_all add: two_failures_state client_start_def)
  have r: "run_client (three_failures @ polling_events) client_mounted
             = run_client polling_events (client_step (WsClose 2) ?c)"
    by (simp add: run_client_def three_failures_def)
  show ?thesis
    using third_failure_enters_polling [OF a b refl d e f] d g n by (simp only: r)
qed

text \<open>
  The first and the second failure in a row do not start polling: a reconnect is
  scheduled with the set of the socket that closed.
\<close>

lemma earlier_failures_retry:
  assumes "reconnectAttemptsRef c < 2"
    and "ws < length (sockets c)"
    and "readyState (sockets c ! ws) \<noteq> CLOSED"
  shows "pollingRef (client_step (WsClose ws) c) = pollingRef c
     \<and> connectionType (client_step (WsClose ws) c) = Disconnected
     \<and> timers (client_step (WsClose ws) c)
         = timers c @ [\<lparr> callback = CallConnect (captured (sockets c ! ws)),
                         delay = min (1000 * 2 ^ (reconnectAttemptsRef c + 1)) 5000,
                         pending = True \<rparr>]
     \<and> length (sockets (client_step (WsClose ws) c)) = length (sockets c)"
  using assms by (simp add: ws_onclose_def Let_def)

text \<open>
  C6 as stated fails: after three failures in a row the client polls and has shown
  the card of \<^verbatim>\<open>game1\<close>; a click on its Unsubscribe button renders a new
  subscription set, the connection effect runs again, and a fourth socket is
  constructed.
\<close>

theorem push_after_polling_counterexample:
  "own (games (run_client (three_failures @ [Settled 0 (InitialResponse [arsenal])]) client_mounted))
       ''game1'' = Some (object_of arsenal)
   \<and> pollingRef (run_client (three_failures @ [Settled 0 (InitialResponse [arsenal])]) client_mounted)
   \<and> length (sockets (run_client
         (three_failures @ [Settled 0 (InitialResponse [arsenal]), ClickUnsubscribe ''game1''])
         client_mounted))
       \<noteq> length (sockets (run_client three_failures client_mounted))"
proof -
  have "run_client (three_failures @ [Settled 0 (InitialResponse [arsenal]), ClickUnsubscribe ''game1''])
          client_mounted
        = client_step (ClickUnsubscribe ''game1'')
            (run_client (three_failures @ [Settled 0 (InitialResponse [arsenal])]) client_mounted)"
    by (simp add: run_client_def)
  then have "length (sockets (run_client
         (three_failures @ [Settled 0 (InitialResponse [arsenal]), ClickUnsubscribe ''game1''])
         client_mounted)) = 4"
    by (simp add: initial_state_fetched client_start_def effect_rerun_def effect_cleanup_def
          handleUnsubscribe_def open_socket_def connect_def stopPolling_def Let_def)
  moreover have "length (sockets (run_client three_failures client_mounted)) = 3"
    by (simp add: three_failures_state)
  ultimately show ?thesis
    by (simp add: initial_state_fetched)
qed

text \<open>
  A click before polling began has the same effect later: the reconnect timer that
  the closed socket left behind is not the one in \<^verbatim>\<open>reconnectTimeoutRef\<close>
  any more, nothing clears it, and when it fires after the third failure it stops
  polling and constructs a fourth socket, with the subscription set as it was.
\<close>

lemma stale_timer_leaves_polling:
  "pollingRef (run_client stale_timer client_mounted)
   \<and> length (sockets (run_client stale_timer client_mounted)) = 3
   \<and> subscribedGames (run_client (stale_timer @ [TimerFires 1]) client_mounted)
       = subscribedGames (run_client stale_timer client_mounted)
   \<and> \<not> pollingRef (run_client (stale_timer @ [TimerFires 1]) client_mounted)
   \<and> length (sockets (run_client (stale_timer @ [TimerFires 1]) client_mounted)) = 4"
  by (simp add: stale_timer_def client_defs gamesMap_def games_set_def empty_object_def arsenal_def)

subsection \<open>The socket opens\<close>



text \<open>
  The set a socket holds is the one given to the \<^verbatim>\<open>connect\<close> that made it:
  the rendered set when the effect runs, the set of an earlier render when a
  reconnect timer of that render fires.
\<close>

lemma connect_captures:
  "open_socket c = None \<Longrightarrow>
   sockets (connect gameIds c) = sockets c @ [\<lparr> readyState = CONNECTING, captured = gameIds \<rparr>]"
  by (simp add: connect_def stopPolling_def Let_def)



subsection \<open>Poll backoff\<close>

text \<open>
  The delay after a failed poll is computed from the counter after its increment: it
  is \<open>min (1000 * 2 ^ n) 30000\<close> for the \<open>n\<close>-th failure in a row, and any
  response resets the counter.
\<close>

lemma poll_backoff_delay:
  assumes "pollingRef c"
  shows "pollingFailuresRef (poll_settled gameIds Failed c) = pollingFailuresRef c + 1
     \<and> poll_delay (poll_settled gameIds Failed c)
         = Some (min (1000 * 2 ^ (pollingFailuresRef c + 1)) 30000)
     \<and> pollingFailuresRef (poll_settled gameIds (BatchResponse deltas) c) = 0
     \<and> pollingFailuresRef (poll_settled gameIds OtherResponse c) = 0"
  using assms
  by (simp add: poll_settled_def Let_def poll_def fetch_def poll_delay_def fold_applyDelta_transport)

text \<open>
  C7. The code at the first failed poll: the counter is 0 before it, and the retry
  is scheduled after 2000 ms, not 1000 ms; the second failure in a row waits 4000 ms;
  and after a successful poll the next failure waits 2000 ms again.
\<close>

theorem poll_backoff_first_failure:
  "pollingFailuresRef polling_client = 0
   \<and> poll_delay (run_client [Settled 1 Failed] polling_client) = Some 2000
   \<and> poll_delay (run_client [Settled 1 Failed, TimerFires 2, Settled 2 Failed] polling_client)
       = Some 4000
   \<and> poll_delay
        (run_client [Settled 1 Failed, TimerFires 2, Settled 2 (BatchResponse []), Settled 3 Failed]
           polling_client)
       = Some 2000"
  by (simp add: polling_client_state client_start_def run_client_def poll_settled_def Let_def
        poll_def fetch_def poll_delay_def)

end
